theory Spec2Isabelle
  imports Main
begin

section \<open>The alarm scheduler of \<^verbatim>\<open>alarm_cond.c\<close>\<close>

text \<open>
  The program keeps one global, singly linked list of alarms (\<^verbatim>\<open>alarm_list\<close>), a global
  \<^verbatim>\<open>current_alarm\<close> and one mutex with one condition variable. \<^verbatim>\<open>main\<close> reads command
  lines and inserts alarms; \<^verbatim>\<open>alarm_group_display_creation\<close> is the dispatcher, started as
  a thread and also called from \<^verbatim>\<open>main\<close>.

  The embedding follows one thread at a time. The linked list is a HOL list of alarm
  values, the head first; \<^verbatim>\<open>malloc\<close>/\<^verbatim>\<open>free\<close> of a list cell need no counterpart. Integers
  are \<open>int\<close>; the only arithmetic of the program is \<^verbatim>\<open>time (NULL) + alarm->seconds\<close>, a sum
  of a \<^verbatim>\<open>time_t\<close> and an \<^verbatim>\<open>int\<close> taken in the 64-bit signed \<^verbatim>\<open>time_t\<close>, and it is modelled
  with its wrap-around (\<open>time_t_sum\<close>). The code under \<^verbatim>\<open>#ifdef DEBUG\<close> is not compiled and is
  left out.
\<close>

subsection \<open>Data\<close>

text \<open>\<^verbatim>\<open>struct alarm_tag\<close>; the \<^verbatim>\<open>link\<close> field is the list structure.\<close>

record alarm_t =
  seconds :: int
  id_alarm :: int
  id_group :: int
  message :: string
  time :: int

text \<open>
  Lines written to standard output, by their \<^verbatim>\<open>printf\<close> and its arguments:
  \<^verbatim>\<open>"Alarm> "\<close>; \<^verbatim>\<open>"Alarm(%d) Inserted by Main Thread %lu Into Alarm List at %ld: Group(%d) %d %s\n"\<close>
  with alarm id, thread id, time, group, seconds, message; and the delivery line
  \<^verbatim>\<open>"(%d) %s\n"\<close> with seconds and message.
\<close>

datatype out_line =
  Prompt
  | Inserted_line int int int int int string
  | Delivery_line int string

text \<open>
  The ways the process ends. \<^verbatim>\<open>errors.h\<close> is not among the sources.
  Modelled from the spec: \<^verbatim>\<open>err_abort (code, text)\<close> and \<^verbatim>\<open>errno_abort (text)\<close> of the
  missing \<^verbatim>\<open>errors.h\<close> terminate the process (``a stray \<^verbatim>\<open>err_abort(69, ...)\<close> on unknown
  commands would terminate the process''). \<open>Null_dereference\<close> is \<^verbatim>\<open>alarm->link\<close> on a null
  \<^verbatim>\<open>alarm\<close>.
\<close>

datatype stop =
  Err_abort int string
  | Errno_abort string
  | Exit int
  | Null_dereference

text \<open>
  The state one thread sees: the two shared variables, what the \<^verbatim>\<open>printf\<close> calls of this
  thread have written to standard output and its \<^verbatim>\<open>fprintf (stderr, ...)\<close> calls to
  standard error (the message of \<^verbatim>\<open>err_abort\<close> is kept in the \<open>stop\<close> value instead), and
  the number of library calls the thread has made so far, which indexes the answers of
  the environment.
\<close>

record state =
  alarm_list :: "alarm_t list"
  current_alarm :: int
  stdout :: "out_line list"
  stderr :: "string list"
  calls :: nat

text \<open>
  A call that takes the mutex (\<^verbatim>\<open>pthread_mutex_lock\<close>, and \<^verbatim>\<open>pthread_cond_wait\<close> and
  \<^verbatim>\<open>pthread_cond_timedwait\<close>, which release it while they block) returns a status and finds
  the shared variables as the other threads left them: any contents at all.
\<close>

record wakeup =
  wake_status :: int
  found_list :: "alarm_t list"
  found_current :: int

text \<open>
  The environment of a thread: \<open>self\<close> is \<^verbatim>\<open>pthread_self ()\<close>; for the \<open>k\<close>-th library call of
  the thread, \<open>mutex_of k\<close> is the answer if the call is \<^verbatim>\<open>pthread_mutex_lock\<close> or
  \<^verbatim>\<open>pthread_cond_wait\<close> (\<open>None\<close>: it blocks for ever), \<open>timedwait_of k t\<close> the answer if it
  is \<^verbatim>\<open>pthread_cond_timedwait\<close> with the absolute time \<open>t\<close> (the \<^verbatim>\<open>tv_sec\<close> of its
  \<^verbatim>\<open>cond_time\<close>, whose \<^verbatim>\<open>tv_nsec\<close> is always 0), \<open>status_of k\<close> the status if it is
  \<^verbatim>\<open>pthread_cond_signal\<close>, \<^verbatim>\<open>pthread_mutex_unlock\<close> or \<^verbatim>\<open>pthread_create\<close>, \<open>time_of k\<close> the
  clock if it is \<^verbatim>\<open>time (NULL)\<close>, and \<open>sem_of k\<close> the result if it is \<^verbatim>\<open>sem_wait\<close> (\<open>None\<close>: it
  blocks for ever).
\<close>

record env =
  self :: int
  mutex_of :: "nat \<Rightarrow> wakeup option"
  timedwait_of :: "nat \<Rightarrow> int \<Rightarrow> wakeup option"
  status_of :: "nat \<Rightarrow> int"
  time_of :: "nat \<Rightarrow> int"
  sem_of :: "nat \<Rightarrow> int option"

type_synonym 'a result = "(stop \<times> state) + 'a"

text \<open>The value of \<^verbatim>\<open>ETIMEDOUT\<close> on Linux; all that is used of it is that it is not 0.\<close>

definition ETIMEDOUT :: int where
  "ETIMEDOUT = 110"

subsection \<open>Library calls\<close>

text \<open>
  The return of a call that takes the mutex, on the answer of the environment: the
  thread has the status and finds the shared variables as the answer says.
\<close>

definition woken :: "wakeup option \<Rightarrow> state \<Rightarrow> (int \<times> state) option" where
  "woken answer s =
     (case answer of
        None \<Rightarrow> None
      | Some w \<Rightarrow>
          Some (wake_status w,
                s\<lparr>alarm_list := found_list w, current_alarm := found_current w,
                  calls := Suc (calls s)\<rparr>))"

definition acquire :: "env \<Rightarrow> state \<Rightarrow> (int \<times> state) option" where
  "acquire e s = woken (mutex_of e (calls s)) s"

definition pthread_mutex_lock :: "env \<Rightarrow> state \<Rightarrow> (int \<times> state) option" where
  "pthread_mutex_lock e s = acquire e s"

definition pthread_cond_wait :: "env \<Rightarrow> state \<Rightarrow> (int \<times> state) option" where
  "pthread_cond_wait e s = acquire e s"

definition pthread_cond_timedwait :: "env \<Rightarrow> int \<Rightarrow> state \<Rightarrow> (int \<times> state) option" where
  "pthread_cond_timedwait e cond_time s = woken (timedwait_of e (calls s) cond_time) s"

definition status_call :: "env \<Rightarrow> state \<Rightarrow> int \<times> state" where
  "status_call e s = (status_of e (calls s), s\<lparr>calls := Suc (calls s)\<rparr>)"

definition pthread_cond_signal :: "env \<Rightarrow> state \<Rightarrow> int \<times> state" where
  "pthread_cond_signal e s = status_call e s"

definition pthread_mutex_unlock :: "env \<Rightarrow> state \<Rightarrow> int \<times> state" where
  "pthread_mutex_unlock e s = status_call e s"

definition pthread_create :: "env \<Rightarrow> state \<Rightarrow> int \<times> state" where
  "pthread_create e s = status_call e s"

definition time_NULL :: "env \<Rightarrow> state \<Rightarrow> int \<times> state" where
  "time_NULL e s = (time_of e (calls s), s\<lparr>calls := Suc (calls s)\<rparr>)"

definition sem_wait :: "env \<Rightarrow> state \<Rightarrow> (int \<times> state) option" where
  "sem_wait e s =
     (case sem_of e (calls s) of
        None \<Rightarrow> None
      | Some r \<Rightarrow> Some (r, s\<lparr>calls := Suc (calls s)\<rparr>))"

subsection \<open>\<^verbatim>\<open>alarm_insert\<close>\<close>

text \<open>
  The \<^verbatim>\<open>while (next != NULL)\<close> loop of \<^verbatim>\<open>alarm_insert\<close> with the \<^verbatim>\<open>if (next == NULL)\<close> after
  it: the new alarm goes before the first cell whose time is not smaller, or to the end.
\<close>

fun alarm_insert_loop :: "alarm_t \<Rightarrow> alarm_t list \<Rightarrow> alarm_t list" where
  "alarm_insert_loop alarm [] = [alarm]"
| "alarm_insert_loop alarm (next # link) =
     (if time next \<ge> time alarm then alarm # next # link
      else next # alarm_insert_loop alarm link)"

definition alarm_insert :: "env \<Rightarrow> alarm_t \<Rightarrow> state \<Rightarrow> state result" where
  "alarm_insert e alarm s =
     (let s1 = s\<lparr>alarm_list := alarm_insert_loop alarm (alarm_list s)\<rparr>;
          s2 = s1\<lparr>stdout := stdout s1 @
                  [Inserted_line (id_alarm alarm) (self e) (time alarm) (id_group alarm)
                     (seconds alarm) (message alarm)]\<rparr>
      in if current_alarm s2 = 0 \<or> time alarm < current_alarm s2 then
           (let s3 = s2\<lparr>current_alarm := time alarm\<rparr>;
                (status, s4) = pthread_cond_signal e s3
            in if status \<noteq> 0 then Inl (Err_abort status ''Signal cond'', s4) else Inr s4)
         else Inr s2)"

subsection \<open>The dispatcher, \<^verbatim>\<open>alarm_group_display_creation\<close>\<close>

text \<open>\<^verbatim>\<open>while (alarm_list == NULL)\<close>: wait until the list is not empty.\<close>

partial_function (option) wait_while_empty :: "env \<Rightarrow> state \<Rightarrow> state result option" where
  "wait_while_empty e s =
     (if alarm_list s = [] then
        (case pthread_cond_wait e s of
           None \<Rightarrow> None
         | Some (status, s') \<Rightarrow>
             if status \<noteq> 0 then Some (Inl (Err_abort status ''Wait on cond'', s'))
             else wait_while_empty e s')
      else Some (Inr s))"

text \<open>
  \<^verbatim>\<open>while (current_alarm == alarm->time)\<close>: the timed wait for the alarm taken from the
  list. The flag of the result is \<^verbatim>\<open>expired\<close>.
\<close>

partial_function (option) timedwait_loop ::
  "env \<Rightarrow> alarm_t \<Rightarrow> state \<Rightarrow> (bool \<times> state) result option" where
  "timedwait_loop e alarm s =
     (if current_alarm s = time alarm then
        (case pthread_cond_timedwait e (time alarm) s of
           None \<Rightarrow> None
         | Some (status, s') \<Rightarrow>
             if status = ETIMEDOUT then Some (Inr (True, s'))
             else if status \<noteq> 0 then Some (Inl (Err_abort status ''Cond timedwait'', s'))
             else timedwait_loop e alarm s')
      else Some (Inr (False, s)))"

text \<open>
  From \<^verbatim>\<open>now = time (NULL)\<close> to the end of \<^verbatim>\<open>if (alarm->time > now) ... else expired = 1\<close>:
  the result is the flag \<^verbatim>\<open>expired\<close>.
\<close>

definition await_deadline :: "env \<Rightarrow> alarm_t \<Rightarrow> state \<Rightarrow> (bool \<times> state) result option" where
  "await_deadline e alarm s =
     (let (now, s1) = time_NULL e s
      in if time alarm > now then
           (case timedwait_loop e alarm (s1\<lparr>current_alarm := time alarm\<rparr>) of
              None \<Rightarrow> None
            | Some (Inl stopped) \<Rightarrow> Some (Inl stopped)
            | Some (Inr (expired, s2)) \<Rightarrow>
                if \<not> expired then
                  (case alarm_insert e alarm s2 of
                     Inl stopped \<Rightarrow> Some (Inl stopped)
                   | Inr s3 \<Rightarrow> Some (Inr (expired, s3)))
                else Some (Inr (expired, s2)))
         else Some (Inr (True, s1)))"

text \<open>\<^verbatim>\<open>if (expired) { printf ("(%d) %s\n", ...); free (alarm); }\<close>\<close>

definition deliver_if :: "bool \<Rightarrow> alarm_t \<Rightarrow> state \<Rightarrow> state" where
  "deliver_if expired alarm s =
     (if expired then s\<lparr>stdout := stdout s @ [Delivery_line (seconds alarm) (message alarm)]\<rparr>
      else s)"

text \<open>The body of the dispatcher's \<^verbatim>\<open>while (1)\<close>, once an alarm is taken from the list.\<close>

definition serve_alarm :: "env \<Rightarrow> alarm_t \<Rightarrow> state \<Rightarrow> state result option" where
  "serve_alarm e alarm s =
     (case await_deadline e alarm s of
        None \<Rightarrow> None
      | Some (Inl stopped) \<Rightarrow> Some (Inl stopped)
      | Some (Inr (expired, s')) \<Rightarrow> Some (Inr (deliver_if expired alarm s')))"

text \<open>One turn of the dispatcher's \<^verbatim>\<open>while (1)\<close>.\<close>

definition dispatcher_iteration :: "env \<Rightarrow> state \<Rightarrow> state result option" where
  "dispatcher_iteration e s =
     (case wait_while_empty e (s\<lparr>current_alarm := 0\<rparr>) of
        None \<Rightarrow> None
      | Some (Inl stopped) \<Rightarrow> Some (Inl stopped)
      | Some (Inr s1) \<Rightarrow>
          (case alarm_list s1 of
             [] \<Rightarrow> Some (Inl (Null_dereference, s1))
           | alarm # link \<Rightarrow> serve_alarm e alarm (s1\<lparr>alarm_list := link\<rparr>)))"

text \<open>
  The \<^verbatim>\<open>while (1)\<close> itself. \<open>Some (Inr s)\<close> would be the loop left with state \<open>s\<close>, \<open>None\<close> is
  a thread that runs or blocks for ever.
\<close>

partial_function (option) dispatcher_loop :: "env \<Rightarrow> state \<Rightarrow> state result option" where
  "dispatcher_loop e s =
     (case dispatcher_iteration e s of
        None \<Rightarrow> None
      | Some (Inl stopped) \<Rightarrow> Some (Inl stopped)
      | Some (Inr s') \<Rightarrow> dispatcher_loop e s')"

definition alarm_group_display_creation :: "env \<Rightarrow> state \<Rightarrow> state result option" where
  "alarm_group_display_creation e s =
     (case pthread_mutex_lock e s of
        None \<Rightarrow> None
      | Some (status, s') \<Rightarrow>
          if status \<noteq> 0 then Some (Inl (Err_abort status ''Lock mutex'', s'))
          else dispatcher_loop e s')"

subsection \<open>The stubs\<close>

definition alarm_change :: "alarm_t \<Rightarrow> state \<Rightarrow> state" where
  "alarm_change alarm s = s"

definition alarm_cancel :: "alarm_t \<Rightarrow> state \<Rightarrow> state" where
  "alarm_cancel alarm s = s"

definition alarm_suspend :: "alarm_t \<Rightarrow> state \<Rightarrow> state" where
  "alarm_suspend alarm s = s"

definition alarm_reactivate :: "alarm_t \<Rightarrow> state \<Rightarrow> state" where
  "alarm_reactivate alarm s = s"

definition alarm_view :: "state \<Rightarrow> state" where
  "alarm_view s = s"

subsection \<open>\<^verbatim>\<open>input_validator\<close> and \<^verbatim>\<open>main\<close>\<close>

definition input_validator :: "string \<Rightarrow> string \<Rightarrow> int \<Rightarrow> stop + int" where
  "input_validator keyword_action keyword_group user_arg =
     (if keyword_action = ''Cancel_Alarm'' \<and> user_arg = 2 then Inr 1
      else if keyword_action = ''View_Alarms'' \<and> user_arg = 1 then Inr 2
      else if keyword_action = ''Start_Alarm'' \<and> keyword_group = ''Group'' \<and> user_arg = 6
        then Inr 3
      else if keyword_action = ''Change_Alarm'' \<and> keyword_group = ''Group'' \<and> user_arg = 6
        then Inr 4
      else if keyword_action = ''Suspend_Alarm'' \<and> user_arg = 2 then Inr 5
      else if keyword_action = ''Reactivate_Alarm'' \<and> user_arg = 2 then Inr 6
      else Inl (Err_abort 69 ''command not found''))"

text \<open>
  What \<^verbatim>\<open>sscanf (line, "%[^(\n](%d): %[^(\n](%d)%d %128[^\n]", ...)\<close> leaves behind: its
  return value and the contents of the two keyword buffers and of the alarm's fields
  after the call. A conversion that did not take place leaves its target as it was: the
  keyword buffers of \<^verbatim>\<open>main\<close> and the fresh block of \<^verbatim>\<open>malloc\<close> are not initialised, so
  such a target holds any value. The \<open>time\<close> of \<open>parsed\<close> is not written by \<^verbatim>\<open>sscanf\<close>.
\<close>

record scan =
  user_arg :: int
  keyword_action :: string
  keyword_group :: string
  parsed :: alarm_t

text \<open>
  What one turn of the loop of \<^verbatim>\<open>main\<close> reads: the line of \<^verbatim>\<open>fgets\<close> (\<open>None\<close> at the end
  of the input), whether \<^verbatim>\<open>malloc\<close> gave a block, and the outcome of \<^verbatim>\<open>sscanf\<close> on the line.
\<close>

record input =
  fgets_line :: "string option"
  malloc_ok :: bool
  sscanf_result :: scan

text \<open>The value of the C expression \<^verbatim>\<open>a == b\<close>, an \<^verbatim>\<open>int\<close>.\<close>

definition c_eq :: "int \<Rightarrow> int \<Rightarrow> int" where
  "c_eq a b = (if a = b then 1 else 0)"

text \<open>
  \<^verbatim>\<open>user_arg == -1 == -1 || alarm->id_alarm < 1 || alarm->id_group < 1\<close>; the first
  disjunct is \<^verbatim>\<open>(user_arg == -1) == -1\<close>.
\<close>

definition bad_command :: "scan \<Rightarrow> bool" where
  "bad_command sc \<longleftrightarrow>
     c_eq (c_eq (user_arg sc) (- 1)) (- 1) \<noteq> 0
     \<or> id_alarm (parsed sc) < 1 \<or> id_group (parsed sc) < 1"

text \<open>
  \<^verbatim>\<open>time (NULL) + alarm->seconds\<close>: the \<^verbatim>\<open>int\<close> is converted to the 64-bit signed \<^verbatim>\<open>time_t\<close>
  and the sum is taken there, where it wraps around: the result is the sum itself when
  that lies between \<open>- 2 ^ 63\<close> and \<open>2 ^ 63 - 1\<close>, and differs from it by a multiple of
  \<open>2 ^ 64\<close> otherwise.
\<close>

definition time_t_sum :: "int \<Rightarrow> int \<Rightarrow> int" where
  "time_t_sum now secs = signed_take_bit 63 (now + secs)"

text \<open>
  The \<^verbatim>\<open>else\<close> branch of \<^verbatim>\<open>main\<close> up to \<^verbatim>\<open>pthread_mutex_unlock\<close>. The flag that \<^verbatim>\<open>input_validator\<close>
  returns is dropped, as in the source.
\<close>

definition accepted_command :: "env \<Rightarrow> scan \<Rightarrow> state \<Rightarrow> state result option" where
  "accepted_command e sc s =
     (case input_validator (keyword_action sc) (keyword_group sc) (user_arg sc) of
        Inl stopped \<Rightarrow> Some (Inl (stopped, s))
      | Inr flag \<Rightarrow>
          (case pthread_mutex_lock e s of
             None \<Rightarrow> None
           | Some (status, s1) \<Rightarrow>
               if status \<noteq> 0 then Some (Inl (Err_abort status ''Lock mutex'', s1))
               else
                 (let (now, s2) = time_NULL e s1;
                      alarm = (parsed sc)\<lparr>time := time_t_sum now (seconds (parsed sc))\<rparr>
                  in case alarm_insert e alarm s2 of
                       Inl stopped \<Rightarrow> Some (Inl stopped)
                     | Inr s3 \<Rightarrow>
                         (let (status', s4) = pthread_mutex_unlock e s3
                          in if status' \<noteq> 0
                             then Some (Inl (Err_abort status' ''Unlock mutex'', s4))
                             else Some (Inr s4)))))"

text \<open>
  One turn of the \<^verbatim>\<open>while (1)\<close> of \<^verbatim>\<open>main\<close>. \<open>Some (Inr s)\<close> is the turn completed: the
  loop goes on to its next prompt in state \<open>s\<close>.
\<close>

definition main_iteration :: "env \<Rightarrow> input \<Rightarrow> state \<Rightarrow> state result option" where
  "main_iteration e inp s =
     (let s0 = s\<lparr>stdout := stdout s @ [Prompt]\<rparr>
      in case fgets_line inp of
           None \<Rightarrow> Some (Inl (Exit 0, s0))
         | Some line \<Rightarrow>
             if length line \<le> 1 then Some (Inr s0)
             else if \<not> malloc_ok inp then Some (Inl (Errno_abort ''Allocate alarm'', s0))
             else if bad_command (sscanf_result inp)
               then Some (Inr (s0\<lparr>stderr := stderr s0 @ [''Bad command'']\<rparr>))
             else
               (case accepted_command e (sscanf_result inp) s0 of
                  None \<Rightarrow> None
                | Some (Inl stopped) \<Rightarrow> Some (Inl stopped)
                | Some (Inr s1) \<Rightarrow>
                    (case alarm_group_display_creation e s1 of
                       None \<Rightarrow> None
                     | Some (Inl stopped) \<Rightarrow> Some (Inl stopped)
                     | Some (Inr s2) \<Rightarrow>
                         (case sem_wait e s2 of
                            None \<Rightarrow> None
                          | Some (r, s3) \<Rightarrow> Some (Inr s3)))))"

text \<open>
  The first turns of the \<^verbatim>\<open>while (1)\<close> of \<^verbatim>\<open>main\<close>, one for each of the inputs given.
  \<open>Some (Inr s)\<close> is: all these turns are completed and the loop is about to write its
  next prompt, in state \<open>s\<close>.
\<close>

fun main_turns :: "env \<Rightarrow> input list \<Rightarrow> state \<Rightarrow> state result option" where
  "main_turns e [] s = Some (Inr s)"
| "main_turns e (inp # rest) s =
     (case main_iteration e inp s of
        None \<Rightarrow> None
      | Some (Inl stopped) \<Rightarrow> Some (Inl stopped)
      | Some (Inr s') \<Rightarrow> main_turns e rest s')"

text \<open>
  \<^verbatim>\<open>main\<close> up to the end of these turns: it starts the two threads and enters its loop.
  (\<^verbatim>\<open>sem_init\<close> changes nothing that is modelled.)
\<close>

definition main :: "env \<Rightarrow> input list \<Rightarrow> state \<Rightarrow> state result option" where
  "main e inputs s =
     (let (status, s1) = pthread_create e s
      in if status \<noteq> 0
         then Some (Inl (Err_abort status ''alarm group display creation'', s1))
         else
           (let (status', s2) = pthread_create e s1
            in if status' \<noteq> 0
               then Some (Inl (Err_abort status' ''alarm group display removal'', s2))
               else main_turns e inputs s2))"

subsection \<open>The order the specification asks of the store\<close>

text \<open>
  Not from the source: the order as the specification words it, ascending by the pair
  (deadline, alarm id). Of two adjacent alarms the earlier one has a strictly smaller
  deadline, or the same deadline and a smaller id.
\<close>

fun ordered_by_deadline_and_id :: "alarm_t list \<Rightarrow> bool" where
  "ordered_by_deadline_and_id [] \<longleftrightarrow> True"
| "ordered_by_deadline_and_id [a] \<longleftrightarrow> True"
| "ordered_by_deadline_and_id (a # b # rest) \<longleftrightarrow>
     (time a < time b \<or> (time a = time b \<and> id_alarm a < id_alarm b))
     \<and> ordered_by_deadline_and_id (b # rest)"

subsection \<open>Sample alarms, states, environments and inputs\<close>

definition alarm_hello :: alarm_t where
  "alarm_hello =
     \<lparr>seconds = 5, id_alarm = 1, id_group = 7, message = ''hello'', time = 105\<rparr>"

definition alarm_world :: alarm_t where
  "alarm_world =
     \<lparr>seconds = 5, id_alarm = 2, id_group = 7, message = ''world'', time = 105\<rparr>"

definition alarm_again :: alarm_t where
  "alarm_again =
     \<lparr>seconds = 9, id_alarm = 1, id_group = 7, message = ''again'', time = 109\<rparr>"

definition alarm_early :: alarm_t where
  "alarm_early =
     \<lparr>seconds = 1, id_alarm = 3, id_group = 7, message = ''early'', time = 103\<rparr>"

definition fresh_state :: state where
  "fresh_state =
     \<lparr>alarm_list = [], current_alarm = 0, stdout = [], stderr = [], calls = 0\<rparr>"

definition hello_state :: state where
  "hello_state =
     \<lparr>alarm_list = [alarm_hello], current_alarm = 105, stdout = [], stderr = [], calls = 0\<rparr>"

text \<open>
  An environment whose clock reads 100, where every call that takes the mutex, a timed
  wait on any time too, returns the status \<open>st\<close> and finds the list \<open>l\<close> and
  \<open>current_alarm = c\<close>, every other \<^verbatim>\<open>pthread\<close> call succeeds and \<^verbatim>\<open>sem_wait\<close> blocks.
\<close>

definition env_finding :: "int \<Rightarrow> alarm_t list \<Rightarrow> int \<Rightarrow> env" where
  "env_finding st l c =
     \<lparr>self = 1,
      mutex_of = (\<lambda>k. Some \<lparr>wake_status = st, found_list = l, found_current = c\<rparr>),
      timedwait_of =
        (\<lambda>k t. Some \<lparr>wake_status = st, found_list = l, found_current = c\<rparr>),
      status_of = (\<lambda>k. 0), time_of = (\<lambda>k. 100), sem_of = (\<lambda>k. None)\<rparr>"

text \<open>
  What \<^verbatim>\<open>sscanf\<close> leaves for a line of which it matched \<open>n\<close> items with the keywords \<open>ka\<close>
  and \<open>kg\<close>, the alarm id \<open>i\<close> and the group \<open>g\<close>; seconds 3 and message \<^verbatim>\<open>msg\<close>. So
  \<open>scanned 6 ''Start_Alarm'' ''Group'' 1 7\<close> is the line \<^verbatim>\<open>Start_Alarm(1): Group(7) 3 msg\<close>,
  \<open>scanned 6 ''Foo'' ''Group'' 1 7\<close> the line \<^verbatim>\<open>Foo(1): Group(7) 3 msg\<close>, and
  \<open>scanned 4 ''Start_Alarm'' ''Group'' 1 7\<close> the line \<^verbatim>\<open>Start_Alarm(1): Group(7)\<close> in a
  block whose other fields happen to hold 3 and \<^verbatim>\<open>msg\<close>.
\<close>

definition scanned :: "int \<Rightarrow> string \<Rightarrow> string \<Rightarrow> int \<Rightarrow> int \<Rightarrow> scan" where
  "scanned n ka kg i g =
     \<lparr>user_arg = n, keyword_action = ka, keyword_group = kg,
      parsed = \<lparr>seconds = 3, id_alarm = i, id_group = g, message = ''msg'', time = 0\<rparr>\<rparr>"

text \<open>
  A turn of \<^verbatim>\<open>main\<close> in which \<^verbatim>\<open>fgets\<close> reads the text \<open>l\<close> and its newline, \<^verbatim>\<open>malloc\<close>
  gives a block and \<^verbatim>\<open>sscanf\<close> leaves \<open>sc\<close>.
\<close>

definition line_read :: "string \<Rightarrow> scan \<Rightarrow> input" where
  "line_read l sc =
     \<lparr>fgets_line = Some (l @ [CHR 0x0A]), malloc_ok = True, sscanf_result = sc\<rparr>"

section \<open>Properties\<close>

subsection \<open>The list\<close>

lemma alarm_insert_loop_split:
  "\<exists>xs ys. l = xs @ ys \<and> alarm_insert_loop a l = xs @ a # ys"
proof (induction l)
  case Nil
  then show ?case by simp
next
  case (Cons n l)
  then obtain xs ys where "l = xs @ ys" "alarm_insert_loop a l = xs @ a # ys"
    by blast
  then have "n # l = (n # xs) @ ys \<and> n # alarm_insert_loop a l = (n # xs) @ a # ys"
    by simp
  then have later: "\<exists>xs ys. n # l = xs @ ys \<and> n # alarm_insert_loop a l = xs @ a # ys"
    by blast
  have here: "\<exists>xs ys. n # l = xs @ ys \<and> a # n # l = xs @ a # ys"
    by (rule exI[of _ "[]"]) simp
  show ?case using later here by simp
qed

lemma alarm_insert_loop_set: "set (alarm_insert_loop a l) = insert a (set l)"
  by (induction l) auto

lemma alarm_insert_loop_sorted:
  "sorted (map time l) \<Longrightarrow> sorted (map time (alarm_insert_loop a l))"
  by (induction l) (auto simp: alarm_insert_loop_set)

lemma alarm_insert_loop_place:
  "alarm_insert_loop a l =
     takeWhile (\<lambda>n. time n < time a) l @ a # dropWhile (\<lambda>n. time n < time a) l"
  by (induction l) auto

lemma alarm_insert_list:
  "alarm_insert e a s = Inr s' \<or> alarm_insert e a s = Inl (stopped, s') \<Longrightarrow>
   alarm_list s' = alarm_insert_loop a (alarm_list s)"
  by (auto simp: alarm_insert_def Let_def pthread_cond_signal_def status_call_def
      split: if_splits)

lemma alarm_insert_stdout:
  "alarm_insert e a s = Inr s' \<or> alarm_insert e a s = Inl (stopped, s') \<Longrightarrow>
   stdout s' = stdout s @
     [Inserted_line (id_alarm a) (self e) (time a) (id_group a) (seconds a) (message a)]"
  by (auto simp: alarm_insert_def Let_def pthread_cond_signal_def status_call_def
      split: if_splits)

lemma alarm_insert_total:
  "(\<exists>s'. alarm_insert e a s = Inr s') \<or>
   (\<exists>st s'. st \<noteq> 0 \<and> alarm_insert e a s = Inl (Err_abort st ''Signal cond'', s'))"
  by (auto simp: alarm_insert_def Let_def pthread_cond_signal_def status_call_def)

subsection \<open>The waits\<close>

lemma timedwait_facts:
  assumes "pthread_cond_timedwait e t s = Some (st, s')"
  shows "stdout s' = stdout s" and "calls s' = Suc (calls s)"
    and "\<exists>w. timedwait_of e (calls s) t = Some w \<and> wake_status w = st"
  using assms by (auto simp: pthread_cond_timedwait_def woken_def split: option.splits)

lemma time_t_sum_in_range:
  "- (2 ^ 63) \<le> now + secs \<Longrightarrow> now + secs < 2 ^ 63 \<Longrightarrow> time_t_sum now secs = now + secs"
  by (simp add: time_t_sum_def signed_take_bit_int_eq_self)

lemma timedwait_loop_left:
  "current_alarm s \<noteq> time a \<Longrightarrow> timedwait_loop e a s = Some (Inr (False, s))"
  by (subst timedwait_loop.simps) simp

lemma timedwait_loop_timeout:
  "current_alarm s = time a \<Longrightarrow> pthread_cond_timedwait e (time a) s = Some (ETIMEDOUT, s1) \<Longrightarrow>
   timedwait_loop e a s = Some (Inr (True, s1))"
  by (subst timedwait_loop.simps) simp

lemma timedwait_loop_again:
  "current_alarm s = time a \<Longrightarrow> pthread_cond_timedwait e (time a) s = Some (0, s1) \<Longrightarrow>
   timedwait_loop e a s = timedwait_loop e a s1"
  by (subst timedwait_loop.simps) (simp add: ETIMEDOUT_def)

text \<open>A wait that returns 0 and finds \<^verbatim>\<open>current_alarm\<close> changed ends the timed wait.\<close>

lemma preempted_wait_leaves_the_loop:
  assumes "current_alarm s = time a" and "pthread_cond_timedwait e (time a) s = Some (0, s1)"
    and "current_alarm s1 \<noteq> time a"
  shows "timedwait_loop e a s = Some (Inr (False, s1))"
  using timedwait_loop_again[OF assms(1,2)] timedwait_loop_left[OF assms(3)] by simp

text \<open>
  The runs of the timed wait that end: it is left at once, or a wait times out, or a
  wait fails, or a wait returns 0 and the loop goes round again.
\<close>

lemma timedwait_loop_cases:
  assumes run: "timedwait_loop e a s = Some r"
    and left: "\<And>s. current_alarm s \<noteq> time a \<Longrightarrow> P s (Inr (False, s))"
    and timeout: "\<And>s s1. current_alarm s = time a \<Longrightarrow>
                    pthread_cond_timedwait e (time a) s = Some (ETIMEDOUT, s1) \<Longrightarrow> P s (Inr (True, s1))"
    and err: "\<And>s s1 st. current_alarm s = time a \<Longrightarrow> pthread_cond_timedwait e (time a) s = Some (st, s1) \<Longrightarrow>
                st \<noteq> ETIMEDOUT \<Longrightarrow> st \<noteq> 0 \<Longrightarrow>
                P s (Inl (Err_abort st ''Cond timedwait'', s1))"
    and again: "\<And>s s1 r. current_alarm s = time a \<Longrightarrow> pthread_cond_timedwait e (time a) s = Some (0, s1) \<Longrightarrow>
                  P s1 r \<Longrightarrow> P s r"
  shows "P s r"
proof -
  have "e = e \<and> a = a \<longrightarrow> P s r"
  proof (rule timedwait_loop.raw_induct
      [where P = "\<lambda>e' a' s r. e' = e \<and> a' = a \<longrightarrow> P s r", OF _ run])
    fix loop :: "env \<Rightarrow> alarm_t \<Rightarrow> state \<Rightarrow> (bool \<times> state) result option" and e' a' s r
    assume IH: "\<And>e' a' s r. loop e' a' s = Some r \<Longrightarrow> e' = e \<and> a' = a \<longrightarrow> P s r"
      and body: "(if current_alarm s = time a'
        then case pthread_cond_timedwait e' (time a') s of None \<Rightarrow> None
             | Some (status, s') \<Rightarrow>
                 if status = ETIMEDOUT then Some (Inr (True, s'))
                 else if status \<noteq> 0
                      then Some (Inl (Err_abort status ''Cond timedwait'', s'))
                      else loop e' a' s'
        else Some (Inr (False, s))) = Some r"
    show "e' = e \<and> a' = a \<longrightarrow> P s r"
    proof
      assume eq: "e' = e \<and> a' = a"
      show "P s r"
      proof (cases "current_alarm s = time a")
        case False
        with body eq have "r = Inr (False, s)" by simp
        with False left show ?thesis by simp
      next
        case True
        show ?thesis
        proof (cases "pthread_cond_timedwait e (time a) s")
          case None
          with True body eq show ?thesis by simp
        next
          case (Some p)
          obtain st s1 where p: "p = (st, s1)" by (cases p)
          with Some have acq: "pthread_cond_timedwait e (time a) s = Some (st, s1)" by simp
          consider "st = ETIMEDOUT" | "st \<noteq> ETIMEDOUT" "st \<noteq> 0" | "st \<noteq> ETIMEDOUT" "st = 0"
            by blast
          then show ?thesis
          proof cases
            case 1
            with True acq body eq have "r = Inr (True, s1)"
              by simp
            with timeout[OF True] acq 1 show ?thesis by simp
          next
            case 2
            with True acq body eq have "r = Inl (Err_abort st ''Cond timedwait'', s1)"
              by simp
            with err[OF True acq 2] show ?thesis by simp
          next
            case 3
            with True acq body eq have "loop e a s1 = Some r"
              by simp
            then have "P s1 r" using IH by blast
            with again[OF True] acq 3 show ?thesis by simp
          qed
        qed
      qed
    qed
  qed
  then show ?thesis by simp
qed

lemma timedwait_loop_stdout:
  assumes "timedwait_loop e a s = Some r"
  shows "r = Inr (expired, s') \<longrightarrow> stdout s' = stdout s"
  using assms
  by (rule timedwait_loop_cases) (auto dest: timedwait_facts(1))

lemma timedwait_loop_preempted:
  assumes "timedwait_loop e a s = Some r"
  shows "r = Inr (False, s') \<longrightarrow> current_alarm s' \<noteq> time a"
  using assms
  by (rule timedwait_loop_cases) auto

lemma timedwait_loop_expired:
  assumes "timedwait_loop e a s = Some r"
  shows "r = Inr (True, s') \<longrightarrow>
    (\<exists>k w. calls s \<le> k \<and> calls s' = Suc k \<and> timedwait_of e k (time a) = Some w \<and>
           wake_status w = ETIMEDOUT)"
  using assms
proof (rule timedwait_loop_cases)
  fix s s1
  assume "pthread_cond_timedwait e (time a) s = Some (ETIMEDOUT, s1)"
  from timedwait_facts(2,3)[OF this]
  show "Inr (True, s1) = Inr (True, s') \<longrightarrow>
    (\<exists>k w. calls s \<le> k \<and> calls s' = Suc k \<and> timedwait_of e k (time a) = Some w \<and>
           wake_status w = ETIMEDOUT)"
    by blast
next
  fix s s1 r
  assume "pthread_cond_timedwait e (time a) s = Some (0, s1)"
    and IH: "r = Inr (True, s') \<longrightarrow>
      (\<exists>k w. calls s1 \<le> k \<and> calls s' = Suc k \<and> timedwait_of e k (time a) = Some w \<and>
             wake_status w = ETIMEDOUT)"
  from timedwait_facts(2)[OF this(1)] have "calls s \<le> calls s1" by simp
  with IH show "r = Inr (True, s') \<longrightarrow>
    (\<exists>k w. calls s \<le> k \<and> calls s' = Suc k \<and> timedwait_of e k (time a) = Some w \<and>
           wake_status w = ETIMEDOUT)"
    by (meson le_trans)
qed simp_all

text \<open>The dispatcher takes its alarm from a list that is not empty.\<close>

lemma wait_while_empty_some:
  assumes "wait_while_empty e s = Some r"
  shows "\<forall>s1. r = Inr s1 \<longrightarrow> alarm_list s1 \<noteq> []"
proof (rule wait_while_empty.raw_induct
    [where P = "\<lambda>e s r. \<forall>s1. r = Inr s1 \<longrightarrow> alarm_list s1 \<noteq> []", OF _ assms])
  fix loop :: "env \<Rightarrow> state \<Rightarrow> state result option" and e s r
  assume IH: "\<And>e s r. loop e s = Some r \<Longrightarrow> \<forall>s1. r = Inr s1 \<longrightarrow> alarm_list s1 \<noteq> []"
    and body: "(if alarm_list s = []
        then case pthread_cond_wait e s of None \<Rightarrow> None
             | Some (status, s') \<Rightarrow>
                 if status \<noteq> 0 then Some (Inl (Err_abort status ''Wait on cond'', s'))
                 else loop e s'
        else Some (Inr s)) = Some r"
  show "\<forall>s1. r = Inr s1 \<longrightarrow> alarm_list s1 \<noteq> []"
  proof (cases "alarm_list s = []")
    case False
    with body show ?thesis by auto
  next
    case True
    show ?thesis
    proof (cases "pthread_cond_wait e s")
      case None
      with True body show ?thesis by simp
    next
      case (Some p)
      obtain st s' where p: "p = (st, s')" by (cases p)
      show ?thesis
      proof (cases "st = 0")
        case True
        with \<open>alarm_list s = []\<close> Some p body have "loop e s' = Some r" by simp
        then show ?thesis by (rule IH)
      next
        case False
        with \<open>alarm_list s = []\<close> Some p body show ?thesis by auto
      qed
    qed
  qed
qed

subsection \<open>The dispatcher\<close>

lemma timedwait_loop_stopped:
  assumes "timedwait_loop e a s = Some r"
  shows "r = Inl (stopped, s') \<longrightarrow> stdout s' = stdout s"
  using assms
  by (rule timedwait_loop_cases) (auto dest: timedwait_facts(1))

text \<open>The turn of the dispatcher for an alarm whose time the clock has not reached.\<close>

lemma serve_alarm_waiting:
  assumes "fst (time_NULL e s) < time alarm"
  shows "serve_alarm e alarm s =
     (case timedwait_loop e alarm ((snd (time_NULL e s))\<lparr>current_alarm := time alarm\<rparr>) of
        None \<Rightarrow> None
      | Some (Inl p) \<Rightarrow> Some (Inl p)
      | Some (Inr (expired, sw)) \<Rightarrow>
          if expired
          then Some (Inr (sw\<lparr>stdout := stdout sw @
                             [Delivery_line (seconds alarm) (message alarm)]\<rparr>))
          else (case alarm_insert e alarm sw of
                  Inl x \<Rightarrow> Some (Inl x) | Inr s'' \<Rightarrow> Some (Inr s'')))"
  using assms
  by (simp add: serve_alarm_def await_deadline_def deliver_if_def split_beta
      split: option.splits sum.splits)

lemma serve_alarm_preempted_result:
  assumes now: "fst (time_NULL e s) < time alarm"
    and wait: "timedwait_loop e alarm ((snd (time_NULL e s))\<lparr>current_alarm := time alarm\<rparr>)
               = Some (Inr (False, sw))"
  shows "serve_alarm e alarm s =
           (case alarm_insert e alarm sw of
              Inl stopped \<Rightarrow> Some (Inl stopped) | Inr s' \<Rightarrow> Some (Inr s'))"
  using now wait
  by (simp add: serve_alarm_def await_deadline_def deliver_if_def split_beta
      split: sum.splits)

lemma serve_alarm_after_preemption:
  assumes now: "fst (time_NULL e s) < time alarm"
    and wait: "timedwait_loop e alarm ((snd (time_NULL e s))\<lparr>current_alarm := time alarm\<rparr>)
               = Some (Inr (False, sw))"
    and resume: "serve_alarm e alarm s = Some (Inr s')"
  shows "alarm_insert e alarm sw = Inr s'" and "stdout sw = stdout s"
proof -
  from now wait resume show "alarm_insert e alarm sw = Inr s'"
    by (simp add: serve_alarm_def await_deadline_def deliver_if_def split_beta
        split: sum.splits)
  from timedwait_loop_stdout[OF wait, of False sw] show "stdout sw = stdout s"
    by (simp add: time_NULL_def)
qed

lemma dispatcher_loop_stops:
  assumes "dispatcher_loop e s = Some r"
  shows "\<exists>stopped. r = Inl stopped"
proof (rule dispatcher_loop.raw_induct
    [where P = "\<lambda>e s r. \<exists>stopped. r = Inl stopped", OF _ assms])
  fix loop :: "env \<Rightarrow> state \<Rightarrow> state result option" and e s r
  assume IH: "\<And>e s r. loop e s = Some r \<Longrightarrow> \<exists>stopped. r = Inl stopped"
    and body: "(case dispatcher_iteration e s of None \<Rightarrow> None
      | Some (Inl stopped) \<Rightarrow> Some (Inl stopped)
      | Some (Inr s') \<Rightarrow> loop e s') = Some r"
  show "\<exists>stopped. r = Inl stopped"
  proof (cases "dispatcher_iteration e s")
    case None
    with body show ?thesis by simp
  next
    case (Some x)
    show ?thesis
    proof (cases x)
      case (Inl stopped)
      with Some body show ?thesis by auto
    next
      case (Inr s')
      with Some body have "loop e s' = Some r" by simp
      then show ?thesis by (rule IH)
    qed
  qed
qed

lemma agdc_no_return:
  "alarm_group_display_creation e s \<noteq> Some (Inr s')"
proof
  assume a: "alarm_group_display_creation e s = Some (Inr s')"
  then obtain s1 where "dispatcher_loop e s1 = Some (Inr s')"
    by (auto simp: alarm_group_display_creation_def split: option.splits if_splits)
  from dispatcher_loop_stops[OF this] show False by simp
qed

subsection \<open>The commands of \<^verbatim>\<open>main\<close>\<close>

lemma bad_command_iff:
  "bad_command sc \<longleftrightarrow> id_alarm (parsed sc) < 1 \<or> id_group (parsed sc) < 1"
  by (simp add: bad_command_def c_eq_def)

lemma input_validator_stop:
  "input_validator ka kg n = Inl stopped \<Longrightarrow> stopped = Err_abort 69 ''command not found''"
  by (simp add: input_validator_def split: if_splits)

lemma accepted_command_returns:
  assumes ret: "accepted_command e sc s = Some (Inr s')"
  obtains flag s1 s3 where
    "input_validator (keyword_action sc) (keyword_group sc) (user_arg sc) = Inr flag"
    "pthread_mutex_lock e s = Some (0, s1)"
    "alarm_insert e ((parsed sc)\<lparr>time := time_t_sum (fst (time_NULL e s1)) (seconds (parsed sc))\<rparr>)
       (snd (time_NULL e s1)) = Inr s3"
    "s' = snd (pthread_mutex_unlock e s3)"
proof -
  let ?v = "input_validator (keyword_action sc) (keyword_group sc) (user_arg sc)"
  from ret obtain flag where v: "?v = Inr flag"
    by (cases ?v) (simp_all add: accepted_command_def)
  from ret v obtain st s1 where lk: "pthread_mutex_lock e s = Some (st, s1)"
    by (cases "pthread_mutex_lock e s") (auto simp: accepted_command_def)
  from ret v lk have st: "st = 0"
    by (cases "st = 0") (simp_all add: accepted_command_def)
  let ?a = "(parsed sc)\<lparr>time := time_t_sum (fst (time_NULL e s1)) (seconds (parsed sc))\<rparr>"
  let ?i = "alarm_insert e ?a (snd (time_NULL e s1))"
  from ret v lk st obtain s3 where ins: "?i = Inr s3"
    by (cases ?i) (simp_all add: accepted_command_def Let_def split_beta)
  from ret v lk st ins have "s' = snd (pthread_mutex_unlock e s3)"
    by (simp add: accepted_command_def Let_def split_beta split: if_splits)
  with v lk st ins that show thesis by blast
qed

lemma accepted_command_list:
  assumes ret: "accepted_command e sc s = Some (Inr s')"
    and lk: "pthread_mutex_lock e s = Some (st, s1)"
  shows "alarm_list s' =
     alarm_insert_loop ((parsed sc)\<lparr>time := time_t_sum (fst (time_NULL e s1)) (seconds (parsed sc))\<rparr>)
       (alarm_list s1)"
proof -
  from ret obtain flag s1' s3 where
    l: "pthread_mutex_lock e s = Some (0, s1')" and
    i: "alarm_insert e ((parsed sc)\<lparr>time := time_t_sum (fst (time_NULL e s1')) (seconds (parsed sc))\<rparr>)
       (snd (time_NULL e s1')) = Inr s3" and
    u: "s' = snd (pthread_mutex_unlock e s3)"
    by (rule accepted_command_returns)
  from l lk have eq: "s1' = s1" by simp
  from alarm_insert_list[OF disjI1, OF i]
  have "alarm_list s3 = alarm_insert_loop
       ((parsed sc)\<lparr>time := time_t_sum (fst (time_NULL e s1')) (seconds (parsed sc))\<rparr>)
       (alarm_list (snd (time_NULL e s1')))" .
  with u eq show ?thesis
    by (simp add: pthread_mutex_unlock_def status_call_def time_NULL_def)
qed

lemma accepted_command_inserts:
  assumes v: "input_validator (keyword_action sc) (keyword_group sc) (user_arg sc) = Inr flag"
    and lk: "pthread_mutex_lock e s = Some (0, s1)"
  shows "\<exists>s'. (accepted_command e sc s = Some (Inr s') \<or>
               (\<exists>stopped. accepted_command e sc s = Some (Inl (stopped, s')))) \<and>
              alarm_list s' =
                alarm_insert_loop
                  ((parsed sc)\<lparr>time := time_t_sum (fst (time_NULL e s1)) (seconds (parsed sc))\<rparr>)
                  (alarm_list s1)"
proof -
  let ?a = "(parsed sc)\<lparr>time := time_t_sum (fst (time_NULL e s1)) (seconds (parsed sc))\<rparr>"
  let ?s2 = "snd (time_NULL e s1)"
  have l2: "alarm_list ?s2 = alarm_list s1" by (simp add: time_NULL_def)
  show ?thesis
  proof (cases "alarm_insert e ?a ?s2")
    case (Inl p)
    obtain stopped s' where p: "p = (stopped, s')" by (cases p)
    from alarm_insert_list[OF disjI2, of e ?a ?s2 stopped s'] Inl p l2
    have "alarm_list s' = alarm_insert_loop ?a (alarm_list s1)" by simp
    moreover from v lk Inl p have "accepted_command e sc s = Some (Inl (stopped, s'))"
      by (simp add: accepted_command_def Let_def split_beta)
    ultimately show ?thesis by blast
  next
    case (Inr s3)
    from alarm_insert_list[OF disjI1, OF Inr] l2
    have l3: "alarm_list s3 = alarm_insert_loop ?a (alarm_list s1)" by simp
    let ?s4 = "snd (pthread_mutex_unlock e s3)"
    have l4: "alarm_list ?s4 = alarm_list s3"
      by (simp add: pthread_mutex_unlock_def status_call_def)
    show ?thesis
    proof (cases "fst (pthread_mutex_unlock e s3) = 0")
      case True
      with v lk Inr have "accepted_command e sc s = Some (Inr ?s4)"
        by (simp add: accepted_command_def Let_def split_beta)
      with l3 l4 show ?thesis by metis
    next
      case False
      with v lk Inr have "accepted_command e sc s =
          Some (Inl (Err_abort (fst (pthread_mutex_unlock e s3)) ''Unlock mutex'', ?s4))"
        by (simp add: accepted_command_def Let_def split_beta)
      with l3 l4 show ?thesis by metis
    qed
  qed
qed

lemma main_iteration_bad:
  assumes "fgets_line inp = Some line" "1 < length line" "malloc_ok inp"
    and "bad_command (sscanf_result inp)"
  shows "main_iteration e inp s =
     Some (Inr (s\<lparr>stdout := stdout s @ [Prompt], stderr := stderr s @ [''Bad command'']\<rparr>))"
  using assms by (simp add: main_iteration_def Let_def)

lemma main_iteration_not_found:
  assumes "fgets_line inp = Some line" "1 < length line" "malloc_ok inp"
    and "\<not> bad_command (sscanf_result inp)"
    and "input_validator (keyword_action (sscanf_result inp)) (keyword_group (sscanf_result inp))
           (user_arg (sscanf_result inp)) = Inl stopped"
  shows "main_iteration e inp s =
     Some (Inl (Err_abort 69 ''command not found'', s\<lparr>stdout := stdout s @ [Prompt]\<rparr>))"
proof -
  from assms(5) have "stopped = Err_abort 69 ''command not found''"
    by (rule input_validator_stop)
  with assms show ?thesis
    by (simp add: main_iteration_def Let_def accepted_command_def)
qed

lemma main_iteration_accepted:
  assumes "fgets_line inp = Some line" "1 < length line" "\<not> bad_command (sscanf_result inp)"
  shows "main_iteration e inp s \<noteq> Some (Inr s')"
proof
  assume m: "main_iteration e inp s = Some (Inr s')"
  show False
  proof (cases "malloc_ok inp")
    case False
    with assms m show False by (simp add: main_iteration_def Let_def)
  next
    case True
    let ?s0 = "s\<lparr>stdout := stdout s @ [Prompt]\<rparr>"
    let ?c = "accepted_command e (sscanf_result inp) ?s0"
    from assms True m obtain s1 where c: "?c = Some (Inr s1)"
      by (cases ?c) (auto simp: main_iteration_def Let_def split: sum.splits)
    let ?d = "alarm_group_display_creation e s1"
    from assms True m c obtain s2 where "?d = Some (Inr s2)"
      by (cases ?d) (auto simp: main_iteration_def Let_def split: sum.splits)
    with agdc_no_return show False by blast
  qed
qed

lemma main_iteration_completed:
  assumes "main_iteration e inp s = Some (Inr s')"
  shows "\<exists>line. fgets_line inp = Some line \<and>
           (length line \<le> 1 \<or> bad_command (sscanf_result inp))"
proof (cases "fgets_line inp")
  case None
  with assms show ?thesis by (simp add: main_iteration_def Let_def)
next
  case (Some line)
  show ?thesis
  proof (rule ccontr)
    assume "\<not> ?thesis"
    with Some have "1 < length line" "\<not> bad_command (sscanf_result inp)" by auto
    from main_iteration_accepted[OF Some this] assms show False by blast
  qed
qed

lemma main_turns_completed:
  "main_turns e inputs s = Some (Inr s') \<Longrightarrow>
   \<forall>inp \<in> set inputs. \<exists>line. fgets_line inp = Some line \<and>
           (length line \<le> 1 \<or> bad_command (sscanf_result inp))"
proof (induction inputs arbitrary: s)
  case Nil
  then show ?case by simp
next
  case (Cons inp rest)
  from Cons.prems obtain s1 where it: "main_iteration e inp s = Some (Inr s1)"
    and rest: "main_turns e rest s1 = Some (Inr s')"
    by (auto split: option.splits sum.splits)
  from main_iteration_completed[OF it] Cons.IH[OF rest] show ?case by simp
qed

lemma main_completed:
  assumes "main e inputs s = Some (Inr s')"
  shows "\<forall>inp \<in> set inputs. \<exists>line. fgets_line inp = Some line \<and>
           (length line \<le> 1 \<or> bad_command (sscanf_result inp))"
proof -
  from assms obtain s2 where "main_turns e inputs s2 = Some (Inr s')"
    by (auto simp: main_def Let_def split_beta split: if_splits)
  then show ?thesis by (rule main_turns_completed)
qed

section \<open>The claims\<close>

text \<open>
  C1: when the timed wait of the dispatcher is preempted (a wait returns without
  \<^verbatim>\<open>ETIMEDOUT\<close> and \<^verbatim>\<open>current_alarm\<close> is no longer the deadline the dispatcher set, so the
  wait loop is left with \<^verbatim>\<open>expired = 0\<close>), the dispatcher puts the alarm it had taken
  back into the list and writes the line of that insertion and no delivery line, and
  then goes on to the next turn of its loop (unless \<^verbatim>\<open>pthread_cond_signal\<close> fails and
  stops the process, the alarm in the list all the same).
\<close>

theorem preempted_alarm_is_back_in_the_list:
  assumes now: "fst (time_NULL e s) < time alarm"
    and wait: "timedwait_loop e alarm ((snd (time_NULL e s))\<lparr>current_alarm := time alarm\<rparr>)
               = Some (Inr (False, sw))"
  shows "current_alarm sw \<noteq> time alarm \<and>
         (\<exists>s'. (serve_alarm e alarm s = Some (Inr s') \<or>
                (\<exists>st. st \<noteq> 0 \<and>
                   serve_alarm e alarm s = Some (Inl (Err_abort st ''Signal cond'', s')))) \<and>
               alarm \<in> set (alarm_list s') \<and>
               stdout s' = stdout s @ [Inserted_line (id_alarm alarm) (self e) (time alarm)
                                   (id_group alarm) (seconds alarm) (message alarm)])"
proof -
  from timedwait_loop_stdout[OF wait, of False sw] have out: "stdout sw = stdout s"
    by (simp add: time_NULL_def)
  from timedwait_loop_preempted[OF wait, of sw] have 3: "current_alarm sw \<noteq> time alarm"
    by simp
  note sv = serve_alarm_preempted_result[OF now wait]
  from alarm_insert_total[of e alarm sw]
  have "\<exists>s'. (serve_alarm e alarm s = Some (Inr s') \<or>
                (\<exists>st. st \<noteq> 0 \<and>
                   serve_alarm e alarm s = Some (Inl (Err_abort st ''Signal cond'', s')))) \<and>
               alarm \<in> set (alarm_list s') \<and>
               stdout s' = stdout s @ [Inserted_line (id_alarm alarm) (self e) (time alarm)
                                   (id_group alarm) (seconds alarm) (message alarm)]"
  proof
    assume "\<exists>s'. alarm_insert e alarm sw = Inr s'"
    then obtain s' where r: "alarm_insert e alarm sw = Inr s'" ..
    from alarm_insert_list[OF disjI1, OF r]
    have 1: "alarm \<in> set (alarm_list s')" by (simp add: alarm_insert_loop_set)
    from alarm_insert_stdout[OF disjI1, OF r] out
    have 2: "stdout s' = stdout s @ [Inserted_line (id_alarm alarm) (self e) (time alarm)
                                   (id_group alarm) (seconds alarm) (message alarm)]"
      by simp
    from sv r have "serve_alarm e alarm s = Some (Inr s')" by simp
    with 1 2 show ?thesis by blast
  next
    assume "\<exists>st s'. st \<noteq> 0 \<and> alarm_insert e alarm sw = Inl (Err_abort st ''Signal cond'', s')"
    then obtain st s' where st: "st \<noteq> 0"
      and r: "alarm_insert e alarm sw = Inl (Err_abort st ''Signal cond'', s')"
      by blast
    from alarm_insert_list[OF disjI2, OF r]
    have 1: "alarm \<in> set (alarm_list s')" by (simp add: alarm_insert_loop_set)
    from alarm_insert_stdout[OF disjI2, OF r] out
    have 2: "stdout s' = stdout s @ [Inserted_line (id_alarm alarm) (self e) (time alarm)
                                   (id_group alarm) (seconds alarm) (message alarm)]"
      by simp
    from sv r have "serve_alarm e alarm s = Some (Inl (Err_abort st ''Signal cond'', s'))"
      by simp
    with st 1 2 show ?thesis by blast
  qed
  with 3 show ?thesis by simp
qed

theorem preempted_alarm_is_back_in_the_list_witness:
  "fst (time_NULL (env_finding 0 [alarm_early] 103) fresh_state) < time alarm_hello \<and>
   timedwait_loop (env_finding 0 [alarm_early] 103) alarm_hello
     ((snd (time_NULL (env_finding 0 [alarm_early] 103) fresh_state))
        \<lparr>current_alarm := time alarm_hello\<rparr>)
     = Some (Inr (False, fresh_state\<lparr>alarm_list := [alarm_early], current_alarm := 103,
                                     calls := 2\<rparr>)) \<and>
   serve_alarm (env_finding 0 [alarm_early] 103) alarm_hello fresh_state
     = Some (Inr (fresh_state\<lparr>alarm_list := [alarm_early, alarm_hello],
                   current_alarm := 103,
                   stdout := [Inserted_line 1 1 105 7 5 ''hello''], calls := 2\<rparr>)) \<and>
   alarm_hello \<in> set [alarm_early, alarm_hello]"
proof -
  let ?e = "env_finding 0 [alarm_early] 103"
  let ?sw = "fresh_state\<lparr>alarm_list := [alarm_early], current_alarm := 103, calls := 2\<rparr>"
  let ?s' = "fresh_state\<lparr>alarm_list := [alarm_early, alarm_hello], current_alarm := 103,
                   stdout := [Inserted_line 1 1 105 7 5 ''hello''], calls := 2\<rparr>"
  have now: "fst (time_NULL ?e fresh_state) < time alarm_hello"
    by (simp add: time_NULL_def env_finding_def alarm_hello_def)
  let ?s1 = "(snd (time_NULL ?e fresh_state))\<lparr>current_alarm := time alarm_hello\<rparr>"
  have acq: "pthread_cond_timedwait ?e (time alarm_hello) ?s1 = Some (0, ?sw)"
    by (simp add: pthread_cond_timedwait_def woken_def env_finding_def fresh_state_def
        time_NULL_def)
  have "timedwait_loop ?e alarm_hello ?s1 = timedwait_loop ?e alarm_hello ?sw"
    by (rule timedwait_loop_again[OF _ acq]) simp
  also have "\<dots> = Some (Inr (False, ?sw))"
    by (rule timedwait_loop_left) (simp add: alarm_hello_def)
  finally have wait: "timedwait_loop ?e alarm_hello ?s1 = Some (Inr (False, ?sw))" .
  have ins: "alarm_insert ?e alarm_hello ?sw = Inr ?s'"
    by (simp add: alarm_insert_def fresh_state_def alarm_hello_def alarm_early_def
        env_finding_def)
  from now wait ins have resume: "serve_alarm ?e alarm_hello fresh_state = Some (Inr ?s')"
    by (simp add: serve_alarm_def await_deadline_def deliver_if_def split_beta)
  from preempted_alarm_is_back_in_the_list[OF now wait]
  obtain s' where d: "serve_alarm ?e alarm_hello fresh_state = Some (Inr s') \<or>
      (\<exists>st. st \<noteq> 0 \<and> serve_alarm ?e alarm_hello fresh_state =
         Some (Inl (Err_abort st ''Signal cond'', s')))"
    and m: "alarm_hello \<in> set (alarm_list s')"
    by blast
  from d resume have "s' = ?s'" by auto
  with m have "alarm_hello \<in> set [alarm_early, alarm_hello]" by simp
  with now wait resume show ?thesis by simp
qed

text \<open>
  C2, as the specification has it: after every call of \<^verbatim>\<open>alarm_insert\<close> on an ordered list
  the list is ordered ascending by the pair (deadline, alarm id). It fails: the list
  holding \<open>alarm_hello\<close> (deadline 105, id 1) is ordered, and \<open>alarm_world\<close> (deadline 105,
  id 2) is put in front of it.
\<close>

theorem alarm_insert_breaks_id_order:
  "ordered_by_deadline_and_id (alarm_list hello_state) \<and>
   alarm_insert (env_finding 0 [] 0) alarm_world hello_state =
     Inr (hello_state\<lparr>alarm_list := [alarm_world, alarm_hello],
                      stdout := [Inserted_line 2 1 105 7 5 ''world'']\<rparr>) \<and>
   \<not> ordered_by_deadline_and_id [alarm_world, alarm_hello]"
  by (simp add: hello_state_def alarm_hello_def alarm_world_def env_finding_def
      alarm_insert_def)

text \<open>
  C2, amended: after every call of \<^verbatim>\<open>alarm_insert\<close> on a list ordered ascending by
  deadline, the list is ordered ascending by deadline (of two adjacent alarms the
  earlier one has a smaller or an equal deadline). The alarm id plays no part: the new
  alarm stands after the alarms of smaller deadline and before all others, those of
  equal deadline included. This holds whether the call returns or stops the process
  at its signal.
\<close>

theorem alarm_insert_keeps_deadline_order:
  assumes "sorted (map time (alarm_list s))"
    and "alarm_insert e alarm s = Inr s' \<or> alarm_insert e alarm s = Inl (stopped, s')"
  shows "sorted (map time (alarm_list s')) \<and>
         alarm_list s' =
           takeWhile (\<lambda>n. time n < time alarm) (alarm_list s) @ alarm #
           dropWhile (\<lambda>n. time n < time alarm) (alarm_list s)"
proof -
  from assms(2) have l: "alarm_list s' = alarm_insert_loop alarm (alarm_list s)"
    by (rule alarm_insert_list)
  from assms(1) have "sorted (map time (alarm_insert_loop alarm (alarm_list s)))"
    by (rule alarm_insert_loop_sorted)
  with l show ?thesis by (simp add: alarm_insert_loop_place)
qed

theorem alarm_insert_keeps_deadline_order_witness:
  "sorted (map time (alarm_list hello_state)) \<and>
   alarm_insert (env_finding 0 [] 0) alarm_early hello_state =
     Inr (hello_state\<lparr>alarm_list := [alarm_early, alarm_hello], current_alarm := 103,
                      stdout := [Inserted_line 3 1 103 7 1 ''early''], calls := 1\<rparr>) \<and>
   sorted (map time [alarm_early, alarm_hello])"
proof -
  let ?s' = "hello_state\<lparr>alarm_list := [alarm_early, alarm_hello], current_alarm := 103,
                      stdout := [Inserted_line 3 1 103 7 1 ''early''], calls := 1\<rparr>"
  have h: "sorted (map time (alarm_list hello_state))"
    by (simp add: hello_state_def)
  have r: "alarm_insert (env_finding 0 [] 0) alarm_early hello_state = Inr ?s'"
    by (simp add: hello_state_def alarm_hello_def alarm_early_def env_finding_def
        alarm_insert_def pthread_cond_signal_def status_call_def)
  then have "alarm_insert (env_finding 0 [] 0) alarm_early hello_state = Inr ?s' \<or>
     alarm_insert (env_finding 0 [] 0) alarm_early hello_state = Inl (Exit 0, ?s')"
    by simp
  from alarm_insert_keeps_deadline_order[OF h this]
  have "sorted (map time (alarm_list ?s'))" by (rule conjunct1)
  then have "sorted (map time [alarm_early, alarm_hello])" by simp
  with h r show ?thesis by simp
qed

text \<open>
  C3: a turn of the dispatcher writes the delivery line of the alarm it has taken from
  the list only when the clock it has just read is at or past the alarm's time, or else,
  the alarm's time being strictly greater than that clock, when the last call it made
  is a \<^verbatim>\<open>pthread_cond_timedwait\<close> on the absolute time \<^verbatim>\<open>alarm->time\<close> that returned
  \<^verbatim>\<open>ETIMEDOUT\<close>. A wait that returns 0, signalled or spurious, never leads to the line,
  wherever in the output of the turn the line might stand and whether the turn is
  completed or stops the process. (That the wait on \<^verbatim>\<open>alarm->time\<close> returns \<^verbatim>\<open>ETIMEDOUT\<close> only
  once that time has come is the contract of \<^verbatim>\<open>pthread_cond_timedwait\<close>.)
\<close>

theorem delivery_waits_for_the_timeout:
  assumes ret: "serve_alarm e alarm s = Some (Inr s') \<or>
                serve_alarm e alarm s = Some (Inl (stopped, s'))"
    and printed: "Delivery_line (seconds alarm) (message alarm)
                    \<in> set (drop (length (stdout s)) (stdout s'))"
  shows "time alarm \<le> fst (time_NULL e s) \<or>
         (fst (time_NULL e s) < time alarm \<and>
          (\<exists>k w. calls s < k \<and> calls s' = Suc k \<and>
                 timedwait_of e k (time alarm) = Some w \<and> wake_status w = ETIMEDOUT))"
proof (cases "fst (time_NULL e s) < time alarm")
  case False
  then show ?thesis by simp
next
  case now: True
  let ?s1 = "(snd (time_NULL e s))\<lparr>current_alarm := time alarm\<rparr>"
  let ?ins = "Inserted_line (id_alarm alarm) (self e) (time alarm) (id_group alarm)
                (seconds alarm) (message alarm)"
  let ?del = "Delivery_line (seconds alarm) (message alarm)"
  note sv = serve_alarm_waiting[OF now]
  have out1: "stdout ?s1 = stdout s" by (simp add: time_NULL_def)
  show ?thesis
  proof (cases "timedwait_loop e alarm ?s1")
    case None
    with sv ret show ?thesis by simp
  next
    case (Some r)
    show ?thesis
    proof (cases r)
      case (Inl p)
      obtain st0 sw where p: "p = (st0, sw)" by (cases p)
      from sv Some Inl p have "serve_alarm e alarm s = Some (Inl (st0, sw))" by simp
      with ret have "s' = sw" by auto
      moreover from timedwait_loop_stopped[OF Some, of st0 sw] Inl p out1
      have "stdout sw = stdout s" by simp
      ultimately have "drop (length (stdout s)) (stdout s') = []" by simp
      with printed show ?thesis by simp
    next
      case (Inr q)
      obtain expired sw where q: "q = (expired, sw)" by (cases q)
      from timedwait_loop_stdout[OF Some, of expired sw] Inr q out1
      have outw: "stdout sw = stdout s" by simp
      show ?thesis
      proof (cases expired)
        case False
        with sv Some Inr q
        have eq: "serve_alarm e alarm s =
            (case alarm_insert e alarm sw of
               Inl x \<Rightarrow> Some (Inl x) | Inr s'' \<Rightarrow> Some (Inr s''))"
          by simp
        from eq ret have "alarm_insert e alarm sw = Inr s' \<or>
            alarm_insert e alarm sw = Inl (stopped, s')"
          by (cases "alarm_insert e alarm sw") auto
        from alarm_insert_stdout[OF this] outw
        have "drop (length (stdout s)) (stdout s') = [?ins]" by simp
        with printed show ?thesis by simp
      next
        case True
        with sv Some Inr q
        have "serve_alarm e alarm s = Some (Inr (sw\<lparr>stdout := stdout sw @ [?del]\<rparr>))"
          by simp
        with ret have "s' = sw\<lparr>stdout := stdout sw @ [?del]\<rparr>" by auto
        then have c: "calls s' = calls sw" by simp
        from timedwait_loop_expired[OF Some, of sw] Inr q True
        obtain k w where "calls ?s1 \<le> k" "calls sw = Suc k"
          "timedwait_of e k (time alarm) = Some w" "wake_status w = ETIMEDOUT"
          by auto
        with c have "\<exists>k w. calls s < k \<and> calls s' = Suc k \<and>
                 timedwait_of e k (time alarm) = Some w \<and> wake_status w = ETIMEDOUT"
          by (auto simp: time_NULL_def)
        with now show ?thesis by simp
      qed
    qed
  qed
qed

theorem delivery_waits_for_the_timeout_witness:
  "fst (time_NULL (env_finding ETIMEDOUT [alarm_early] 103) fresh_state) < time alarm_hello \<and>
   serve_alarm (env_finding ETIMEDOUT [alarm_early] 103) alarm_hello fresh_state
     = Some (Inr (fresh_state\<lparr>alarm_list := [alarm_early], current_alarm := 103,
                   stdout := [Delivery_line 5 ''hello''], calls := 2\<rparr>)) \<and>
   Delivery_line (seconds alarm_hello) (message alarm_hello)
     \<in> set (drop (length (stdout fresh_state)) [Delivery_line 5 ''hello'']) \<and>
   (\<exists>k w. calls fresh_state < k \<and> (2::nat) = Suc k \<and>
          timedwait_of (env_finding ETIMEDOUT [alarm_early] 103) k (time alarm_hello) = Some w \<and>
          wake_status w = ETIMEDOUT)"
proof -
  let ?e = "env_finding ETIMEDOUT [alarm_early] 103"
  let ?sw = "fresh_state\<lparr>alarm_list := [alarm_early], current_alarm := 103, calls := 2\<rparr>"
  let ?s' = "fresh_state\<lparr>alarm_list := [alarm_early], current_alarm := 103,
                   stdout := [Delivery_line 5 ''hello''], calls := 2\<rparr>"
  let ?s1 = "(snd (time_NULL ?e fresh_state))\<lparr>current_alarm := time alarm_hello\<rparr>"
  have now: "fst (time_NULL ?e fresh_state) < time alarm_hello"
    by (simp add: time_NULL_def env_finding_def alarm_hello_def)
  have acq: "pthread_cond_timedwait ?e (time alarm_hello) ?s1 = Some (ETIMEDOUT, ?sw)"
    by (simp add: pthread_cond_timedwait_def woken_def env_finding_def fresh_state_def
        time_NULL_def)
  have wait: "timedwait_loop ?e alarm_hello ?s1 = Some (Inr (True, ?sw))"
    by (rule timedwait_loop_timeout[OF _ acq]) simp
  from now wait have ret: "serve_alarm ?e alarm_hello fresh_state = Some (Inr ?s')"
    by (simp add: serve_alarm_def await_deadline_def deliver_if_def split_beta
        fresh_state_def alarm_hello_def)
  have printed: "Delivery_line (seconds alarm_hello) (message alarm_hello)
      \<in> set (drop (length (stdout fresh_state)) (stdout ?s'))"
    by (simp add: fresh_state_def alarm_hello_def)
  from delivery_waits_for_the_timeout[OF disjI1, OF ret printed] now
  have "\<exists>k w. calls fresh_state < k \<and> (2::nat) = Suc k \<and>
          timedwait_of ?e k (time alarm_hello) = Some w \<and> wake_status w = ETIMEDOUT"
    by (simp add: fresh_state_def)
  moreover from printed have "Delivery_line (seconds alarm_hello) (message alarm_hello)
     \<in> set (drop (length (stdout fresh_state)) [Delivery_line 5 ''hello''])"
    by simp
  ultimately show ?thesis using now ret by simp
qed

text \<open>
  C4: \<^verbatim>\<open>alarm_group_display_creation\<close> never returns: whatever the environment answers,
  it runs or blocks for ever or the process stops inside it. \<^verbatim>\<open>main\<close> calls it after
  every command it has accepted (a line of more than one character whose parsed id and
  group pass the check), so a turn of the loop of \<^verbatim>\<open>main\<close> that accepts a command is never
  completed; and when \<^verbatim>\<open>main\<close> has completed turns of its loop, each of their lines was an
  empty one or a \<^verbatim>\<open>Bad command\<close>. No accepted command is followed by another prompt, so a
  run has at most one.
\<close>

theorem dispatcher_never_returns:
  "alarm_group_display_creation e s \<noteq> Some (Inr s') \<and>
   (fgets_line inp = Some line \<longrightarrow> 1 < length line \<longrightarrow>
    \<not> bad_command (sscanf_result inp) \<longrightarrow> main_iteration e inp s \<noteq> Some (Inr s'')) \<and>
   (main e inputs s = Some (Inr s3) \<longrightarrow>
    (\<forall>inp \<in> set inputs. \<exists>line. fgets_line inp = Some line \<and>
           (length line \<le> 1 \<or> bad_command (sscanf_result inp))))"
  using agdc_no_return main_iteration_accepted main_completed by blast

theorem dispatcher_never_returns_witness:
  "fgets_line (line_read ''Start_Alarm(1): Group(7) 3 msg'' (scanned 6 ''Start_Alarm'' ''Group'' 1 7))
     = Some (''Start_Alarm(1): Group(7) 3 msg'' @ [CHR 0x0A]) \<and>
   1 < length (''Start_Alarm(1): Group(7) 3 msg'' @ [CHR 0x0A]) \<and>
   \<not> bad_command (sscanf_result
        (line_read ''Start_Alarm(1): Group(7) 3 msg'' (scanned 6 ''Start_Alarm'' ''Group'' 1 7))) \<and>
   alarm_group_display_creation (env_finding 0 [] 0) fresh_state \<noteq> Some (Inr fresh_state) \<and>
   main_iteration (env_finding 0 [] 0)
     (line_read ''Start_Alarm(1): Group(7) 3 msg'' (scanned 6 ''Start_Alarm'' ''Group'' 1 7))
     fresh_state \<noteq> Some (Inr fresh_state) \<and>
   main (env_finding 0 [] 0)
     [line_read ''Start_Alarm(0): Group(7) 3 msg'' (scanned 6 ''Start_Alarm'' ''Group'' 0 7)]
     fresh_state =
     Some (Inr (fresh_state\<lparr>stdout := [Prompt], stderr := [''Bad command''], calls := 2\<rparr>)) \<and>
   bad_command (sscanf_result
     (line_read ''Start_Alarm(0): Group(7) 3 msg'' (scanned 6 ''Start_Alarm'' ''Group'' 0 7)))"
proof -
  let ?e = "env_finding 0 [] 0"
  let ?inp = "line_read ''Start_Alarm(1): Group(7) 3 msg'' (scanned 6 ''Start_Alarm'' ''Group'' 1 7)"
  let ?bad = "line_read ''Start_Alarm(0): Group(7) 3 msg'' (scanned 6 ''Start_Alarm'' ''Group'' 0 7)"
  let ?s3 = "fresh_state\<lparr>stdout := [Prompt], stderr := [''Bad command''], calls := 2\<rparr>"
  have 1: "fgets_line ?inp = Some (''Start_Alarm(1): Group(7) 3 msg'' @ [CHR 0x0A])"
    by (simp add: line_read_def)
  have 2: "1 < length (''Start_Alarm(1): Group(7) 3 msg'' @ [CHR 0x0A])" by simp
  have 3: "\<not> bad_command (sscanf_result ?inp)"
    by (simp add: line_read_def scanned_def bad_command_def c_eq_def)
  have 4: "main ?e [?bad] fresh_state = Some (Inr ?s3)"
    by (simp add: main_def pthread_create_def status_call_def env_finding_def
        fresh_state_def main_iteration_def line_read_def scanned_def bad_command_def c_eq_def)
  from dispatcher_never_returns[where e = ?e and s = fresh_state and s' = fresh_state
      and inp = ?inp and line = "''Start_Alarm(1): Group(7) 3 msg'' @ [CHR 0x0A]" and s'' = fresh_state
      and inputs = "[?bad]" and ?s3.0 = ?s3] 1 2 3 4
  have "alarm_group_display_creation ?e fresh_state \<noteq> Some (Inr fresh_state) \<and>
     main_iteration ?e ?inp fresh_state \<noteq> Some (Inr fresh_state) \<and>
     (\<exists>line. fgets_line ?bad = Some line \<and> (length line \<le> 1 \<or> bad_command (sscanf_result ?bad)))"
    by simp
  moreover have "\<not> length (''Start_Alarm(0): Group(7) 3 msg'' @ [CHR 0x0A]) \<le> 1" by simp
  moreover have "fgets_line ?bad = Some (''Start_Alarm(0): Group(7) 3 msg'' @ [CHR 0x0A])"
    by (simp add: line_read_def)
  ultimately have "alarm_group_display_creation ?e fresh_state \<noteq> Some (Inr fresh_state) \<and>
     main_iteration ?e ?inp fresh_state \<noteq> Some (Inr fresh_state) \<and>
     bad_command (sscanf_result ?bad)"
    by auto
  with 1 2 3 4 show ?thesis by simp
qed

text \<open>
  C5, as the specification has it: inserting an alarm whose id is already in the store
  fails with \<open>DuplicateId\<close> and leaves the store unchanged. It fails: with \<open>alarm_hello\<close>
  (id 1) in the list, \<^verbatim>\<open>alarm_insert\<close> of \<open>alarm_again\<close> (id 1 too) returns and the list
  holds both.
\<close>

theorem alarm_insert_takes_a_duplicate_id:
  "id_alarm alarm_again \<in> id_alarm ` set (alarm_list hello_state) \<and>
   alarm_insert (env_finding 0 [] 0) alarm_again hello_state =
     Inr (hello_state\<lparr>alarm_list := [alarm_hello, alarm_again],
                      stdout := [Inserted_line 1 1 109 7 9 ''again'']\<rparr>) \<and>
   [alarm_hello, alarm_again] \<noteq> alarm_list hello_state"
  by (simp add: hello_state_def alarm_hello_def alarm_again_def env_finding_def
      alarm_insert_def)

text \<open>
  C5, amended: \<^verbatim>\<open>alarm_insert\<close> looks at no id. For every store and every alarm, also one
  whose id is in the store already, the call puts the alarm into the list and keeps
  every alarm that was there, in its place; it either returns or, when
  \<^verbatim>\<open>pthread_cond_signal\<close> fails, stops the process with that status. It has no other
  outcome, so no second alarm of an id is ever turned away.
\<close>

theorem alarm_insert_checks_no_id:
  "\<exists>s' xs ys.
     (alarm_insert e alarm s = Inr s' \<or>
      (\<exists>st. st \<noteq> 0 \<and> alarm_insert e alarm s = Inl (Err_abort st ''Signal cond'', s'))) \<and>
     alarm_list s = xs @ ys \<and> alarm_list s' = xs @ alarm # ys"
proof -
  obtain xs ys where split: "alarm_list s = xs @ ys"
    "alarm_insert_loop alarm (alarm_list s) = xs @ alarm # ys"
    using alarm_insert_loop_split by blast
  from alarm_insert_total[of e alarm s] show ?thesis
  proof
    assume "\<exists>s'. alarm_insert e alarm s = Inr s'"
    then obtain s' where r: "alarm_insert e alarm s = Inr s'" ..
    from alarm_insert_list[OF disjI1, OF r] split
    have "alarm_list s' = xs @ alarm # ys" by simp
    with r split(1) show ?thesis by blast
  next
    assume "\<exists>st s'. st \<noteq> 0 \<and> alarm_insert e alarm s = Inl (Err_abort st ''Signal cond'', s')"
    then obtain st s' where st: "st \<noteq> 0"
      and r: "alarm_insert e alarm s = Inl (Err_abort st ''Signal cond'', s')"
      by blast
    from alarm_insert_list[OF disjI2, OF r] split
    have "alarm_list s' = xs @ alarm # ys" by simp
    with r st split(1) show ?thesis by blast
  qed
qed

theorem alarm_insert_checks_no_id_witness:
  "\<exists>s' xs ys.
     (alarm_insert (env_finding 0 [] 0) alarm_again hello_state = Inr s' \<or>
      (\<exists>st. st \<noteq> 0 \<and> alarm_insert (env_finding 0 [] 0) alarm_again hello_state =
         Inl (Err_abort st ''Signal cond'', s'))) \<and>
     alarm_list hello_state = xs @ ys \<and> alarm_list s' = xs @ alarm_again # ys"
  by (rule alarm_insert_checks_no_id)

text \<open>
  C6, as the specification has it: a Cancel that names an alarm of the store removes
  it. It fails: \<^verbatim>\<open>alarm_cancel\<close> leaves \<open>alarm_hello\<close> in the list, and the line
  \<^verbatim>\<open>Cancel_Alarm(1)\<close>, read by \<^verbatim>\<open>main\<close> into a block whose group field holds 7, leaves it
  there too and adds an alarm of id 1.
\<close>

theorem cancel_removes_nothing:
  "alarm_hello \<in> set (alarm_list hello_state) \<and>
   id_alarm alarm_hello = id_alarm (parsed (scanned 2 ''Cancel_Alarm'' '''' 1 7)) \<and>
   alarm_hello \<in> set (alarm_list (alarm_cancel alarm_hello hello_state)) \<and>
   accepted_command (env_finding 0 [alarm_hello] 105) (scanned 2 ''Cancel_Alarm'' '''' 1 7)
     fresh_state =
     Some (Inr (fresh_state
       \<lparr>alarm_list := [(parsed (scanned 2 ''Cancel_Alarm'' '''' 1 7))\<lparr>time := 103\<rparr>, alarm_hello],
        current_alarm := 103, stdout := [Inserted_line 1 1 103 7 3 ''msg''], calls := 4\<rparr>))"
  by (simp add: hello_state_def fresh_state_def alarm_hello_def scanned_def env_finding_def
      alarm_cancel_def accepted_command_def input_validator_def pthread_mutex_lock_def
      acquire_def woken_def time_NULL_def time_t_sum_in_range alarm_insert_def pthread_cond_signal_def status_call_def
      pthread_mutex_unlock_def)

text \<open>
  C6, amended: \<^verbatim>\<open>alarm_cancel\<close> is an empty function and \<^verbatim>\<open>main\<close> does not call it. For
  every alarm, in the store or not, the store after \<^verbatim>\<open>alarm_cancel\<close> is the store before
  it, and nothing is reported. Every command that \<^verbatim>\<open>main\<close> accepts, a \<^verbatim>\<open>Cancel_Alarm\<close> line
  too, keeps every alarm that \<^verbatim>\<open>main\<close> finds in the list when it has the mutex.
\<close>

theorem cancel_keeps_the_store:
  "alarm_cancel alarm s = s \<and>
   (accepted_command e sc s = Some (Inr s') \<longrightarrow> pthread_mutex_lock e s = Some (st, s1) \<longrightarrow>
    set (alarm_list s1) \<subseteq> set (alarm_list s'))"
proof -
  have "set (alarm_list s1) \<subseteq> set (alarm_list s')"
    if "accepted_command e sc s = Some (Inr s')" "pthread_mutex_lock e s = Some (st, s1)"
    using accepted_command_list[OF that] by (auto simp: alarm_insert_loop_set)
  then show ?thesis by (simp add: alarm_cancel_def)
qed

theorem cancel_keeps_the_store_witness:
  "alarm_cancel alarm_hello hello_state = hello_state \<and>
   accepted_command (env_finding 0 [alarm_hello] 105) (scanned 2 ''Cancel_Alarm'' '''' 1 7)
     fresh_state =
     Some (Inr (fresh_state
       \<lparr>alarm_list := [(parsed (scanned 2 ''Cancel_Alarm'' '''' 1 7))\<lparr>time := 103\<rparr>, alarm_hello],
        current_alarm := 103, stdout := [Inserted_line 1 1 103 7 3 ''msg''], calls := 4\<rparr>)) \<and>
   pthread_mutex_lock (env_finding 0 [alarm_hello] 105) fresh_state =
     Some (0, fresh_state\<lparr>alarm_list := [alarm_hello], current_alarm := 105, calls := 1\<rparr>) \<and>
   set [alarm_hello] \<subseteq>
     set [(parsed (scanned 2 ''Cancel_Alarm'' '''' 1 7))\<lparr>time := 103\<rparr>, alarm_hello]"
proof -
  let ?e = "env_finding 0 [alarm_hello] 105"
  let ?sc = "scanned 2 ''Cancel_Alarm'' '''' 1 7"
  let ?s1 = "fresh_state\<lparr>alarm_list := [alarm_hello], current_alarm := 105, calls := 1\<rparr>"
  let ?s' = "fresh_state
       \<lparr>alarm_list := [(parsed ?sc)\<lparr>time := 103\<rparr>, alarm_hello],
        current_alarm := 103, stdout := [Inserted_line 1 1 103 7 3 ''msg''], calls := 4\<rparr>"
  have lk: "pthread_mutex_lock ?e fresh_state = Some (0, ?s1)"
    by (simp add: pthread_mutex_lock_def acquire_def woken_def env_finding_def fresh_state_def)
  have ac: "accepted_command ?e ?sc fresh_state = Some (Inr ?s')"
    by (simp add: fresh_state_def alarm_hello_def scanned_def env_finding_def
      accepted_command_def input_validator_def pthread_mutex_lock_def
      acquire_def woken_def time_NULL_def time_t_sum_in_range alarm_insert_def pthread_cond_signal_def status_call_def
      pthread_mutex_unlock_def)
  from cancel_keeps_the_store[where alarm = alarm_hello and s = hello_state]
    cancel_keeps_the_store[where e = ?e and sc = ?sc and s = fresh_state and s' = ?s'
      and st = 0 and ?s1.0 = ?s1] lk ac
  have "alarm_cancel alarm_hello hello_state = hello_state \<and>
     set (alarm_list ?s1) \<subseteq> set (alarm_list ?s')"
    by blast
  with lk ac show ?thesis by simp
qed

text \<open>
  C7, as the specification has it: a line that is none of the six commands gets
  \<^verbatim>\<open>Bad command\<close> on standard error and the program reads on. It fails: on the line
  \<^verbatim>\<open>Foo(1): Group(7) 3 msg\<close> the process is stopped by \<^verbatim>\<open>err_abort (69, "command not found")\<close>
  and \<^verbatim>\<open>Bad command\<close> is not printed.
\<close>

theorem unknown_command_stops_the_process:
  "main_iteration (env_finding 0 [] 0)
     (line_read ''Foo(1): Group(7) 3 msg'' (scanned 6 ''Foo'' ''Group'' 1 7)) fresh_state =
   Some (Inl (Err_abort 69 ''command not found'', fresh_state\<lparr>stdout := [Prompt]\<rparr>)) \<and>
   stderr (fresh_state\<lparr>stdout := [Prompt]\<rparr>) = []"
  by (simp add: main_iteration_def line_read_def scanned_def bad_command_def c_eq_def
      accepted_command_def input_validator_def fresh_state_def)

text \<open>
  C7, amended: for every line that \<^verbatim>\<open>input_validator\<close> does not recognise as one of the six
  commands, the program prints \<^verbatim>\<open>Bad command\<close> on standard error and reads on only when
  the id or the group that the alarm holds after \<^verbatim>\<open>sscanf\<close> is below 1; when both are at
  least 1, \<^verbatim>\<open>input_validator\<close> stops the process with
  \<^verbatim>\<open>err_abort (69, "command not found")\<close> and \<^verbatim>\<open>Bad command\<close> is not printed.
\<close>

theorem unknown_command_is_bad_or_fatal:
  assumes "fgets_line inp = Some line" and "1 < length line" and "malloc_ok inp"
    and "input_validator (keyword_action (sscanf_result inp))
           (keyword_group (sscanf_result inp)) (user_arg (sscanf_result inp)) = Inl stopped"
  shows "main_iteration e inp s =
     (if id_alarm (parsed (sscanf_result inp)) < 1 \<or> id_group (parsed (sscanf_result inp)) < 1
      then Some (Inr (s\<lparr>stdout := stdout s @ [Prompt],
                        stderr := stderr s @ [''Bad command'']\<rparr>))
      else Some (Inl (Err_abort 69 ''command not found'', s\<lparr>stdout := stdout s @ [Prompt]\<rparr>)))"
proof (cases "bad_command (sscanf_result inp)")
  case True
  from main_iteration_bad[OF assms(1-3) True] True show ?thesis
    by (simp add: bad_command_iff)
next
  case False
  from main_iteration_not_found[OF assms(1-3) False assms(4)] False show ?thesis
    by (simp add: bad_command_iff)
qed

theorem unknown_command_is_bad_or_fatal_witness:
  "fgets_line (line_read ''Foo(0): Group(7) 3 msg'' (scanned 6 ''Foo'' ''Group'' 0 7)) =
     Some (''Foo(0): Group(7) 3 msg'' @ [CHR 0x0A]) \<and>
   1 < length (''Foo(0): Group(7) 3 msg'' @ [CHR 0x0A]) \<and>
   malloc_ok (line_read ''Foo(0): Group(7) 3 msg'' (scanned 6 ''Foo'' ''Group'' 0 7)) \<and>
   input_validator ''Foo'' ''Group'' 6 = Inl (Err_abort 69 ''command not found'') \<and>
   main_iteration (env_finding 0 [] 0)
     (line_read ''Foo(0): Group(7) 3 msg'' (scanned 6 ''Foo'' ''Group'' 0 7)) fresh_state =
     Some (Inr (fresh_state\<lparr>stdout := [Prompt], stderr := [''Bad command'']\<rparr>))"
proof -
  let ?inp = "line_read ''Foo(0): Group(7) 3 msg'' (scanned 6 ''Foo'' ''Group'' 0 7)"
  have 1: "fgets_line ?inp = Some (''Foo(0): Group(7) 3 msg'' @ [CHR 0x0A])"
    by (simp add: line_read_def)
  have 2: "1 < length (''Foo(0): Group(7) 3 msg'' @ [CHR 0x0A])" by simp
  have 3: "malloc_ok ?inp" by (simp add: line_read_def)
  have v: "input_validator ''Foo'' ''Group'' 6 = Inl (Err_abort 69 ''command not found'')"
    by (simp add: input_validator_def)
  then have 4: "input_validator (keyword_action (sscanf_result ?inp))
      (keyword_group (sscanf_result ?inp)) (user_arg (sscanf_result ?inp)) =
      Inl (Err_abort 69 ''command not found'')"
    by (simp add: line_read_def scanned_def)
  have "main_iteration (env_finding 0 [] 0) ?inp fresh_state =
     Some (Inr (fresh_state\<lparr>stdout := [Prompt], stderr := [''Bad command'']\<rparr>))"
    using unknown_command_is_bad_or_fatal[OF 1 2 3 4, of "env_finding 0 [] 0" fresh_state]
    by (simp add: line_read_def scanned_def fresh_state_def)
  with 1 2 3 v show ?thesis by simp
qed

text \<open>
  C8: every command that \<^verbatim>\<open>main\<close> accepts, a Start command among them, puts an alarm
  into the list whose seconds are the parsed seconds, unchanged, and whose time is
  \<^verbatim>\<open>time (NULL) + alarm->seconds\<close>, the clock that \<^verbatim>\<open>main\<close> reads once it has the mutex plus
  the parsed seconds, summed in \<^verbatim>\<open>time_t\<close>: the sum of the two numbers whenever that sum is
  in the range of the 64-bit \<^verbatim>\<open>time_t\<close>.
\<close>

theorem start_deadline_is_now_plus_seconds:
  assumes "input_validator (keyword_action sc) (keyword_group sc) (user_arg sc) = Inr flag"
    and "pthread_mutex_lock e s = Some (0, s1)"
  shows "\<exists>s' alarm.
           (accepted_command e sc s = Some (Inr s') \<or>
            (\<exists>stopped. accepted_command e sc s = Some (Inl (stopped, s')))) \<and>
           alarm \<in> set (alarm_list s') \<and>
           seconds alarm = seconds (parsed sc) \<and>
           id_alarm alarm = id_alarm (parsed sc) \<and>
           id_group alarm = id_group (parsed sc) \<and>
           message alarm = message (parsed sc) \<and>
           time alarm = time_t_sum (fst (time_NULL e s1)) (seconds (parsed sc)) \<and>
           (- (2 ^ 63) \<le> fst (time_NULL e s1) + seconds (parsed sc) \<and>
            fst (time_NULL e s1) + seconds (parsed sc) < 2 ^ 63 \<longrightarrow>
            time alarm = fst (time_NULL e s1) + seconds (parsed sc))"
proof -
  let ?a = "(parsed sc)\<lparr>time := time_t_sum (fst (time_NULL e s1)) (seconds (parsed sc))\<rparr>"
  from accepted_command_inserts[OF assms]
  obtain s' where "accepted_command e sc s = Some (Inr s') \<or>
               (\<exists>stopped. accepted_command e sc s = Some (Inl (stopped, s')))"
    and "alarm_list s' = alarm_insert_loop ?a (alarm_list s1)"
    by blast
  then have "(accepted_command e sc s = Some (Inr s') \<or>
            (\<exists>stopped. accepted_command e sc s = Some (Inl (stopped, s')))) \<and>
           ?a \<in> set (alarm_list s')"
    by (simp add: alarm_insert_loop_set)
  moreover have "seconds ?a = seconds (parsed sc) \<and> id_alarm ?a = id_alarm (parsed sc) \<and>
      id_group ?a = id_group (parsed sc) \<and> message ?a = message (parsed sc) \<and>
      time ?a = time_t_sum (fst (time_NULL e s1)) (seconds (parsed sc))"
    by simp
  moreover have "- (2 ^ 63) \<le> fst (time_NULL e s1) + seconds (parsed sc) \<and>
            fst (time_NULL e s1) + seconds (parsed sc) < 2 ^ 63 \<longrightarrow>
            time ?a = fst (time_NULL e s1) + seconds (parsed sc)"
    by (simp add: time_t_sum_in_range)
  ultimately show ?thesis by blast
qed

theorem start_deadline_is_now_plus_seconds_witness:
  "input_validator (keyword_action (scanned 6 ''Start_Alarm'' ''Group'' 2 7))
     (keyword_group (scanned 6 ''Start_Alarm'' ''Group'' 2 7))
     (user_arg (scanned 6 ''Start_Alarm'' ''Group'' 2 7)) = Inr 3 \<and>
   pthread_mutex_lock (env_finding 0 [alarm_hello] 105) fresh_state =
     Some (0, fresh_state\<lparr>alarm_list := [alarm_hello], current_alarm := 105, calls := 1\<rparr>) \<and>
   fst (time_NULL (env_finding 0 [alarm_hello] 105)
     (fresh_state\<lparr>alarm_list := [alarm_hello], current_alarm := 105, calls := 1\<rparr>)) = 100 \<and>
   seconds (parsed (scanned 6 ''Start_Alarm'' ''Group'' 2 7)) = 3 \<and>
   - (2 ^ 63) \<le> (100::int) + 3 \<and> (100::int) + 3 < 2 ^ 63 \<and>
   accepted_command (env_finding 0 [alarm_hello] 105) (scanned 6 ''Start_Alarm'' ''Group'' 2 7)
     fresh_state =
     Some (Inr (fresh_state
       \<lparr>alarm_list := [(parsed (scanned 6 ''Start_Alarm'' ''Group'' 2 7))\<lparr>time := 103\<rparr>,
                       alarm_hello],
        current_alarm := 103, stdout := [Inserted_line 2 1 103 7 3 ''msg''], calls := 4\<rparr>)) \<and>
   (\<exists>alarm. alarm \<in> set [(parsed (scanned 6 ''Start_Alarm'' ''Group'' 2 7))\<lparr>time := 103\<rparr>,
                         alarm_hello] \<and>
      time alarm = 100 + 3 \<and> seconds alarm = 3)"
proof -
  let ?e = "env_finding 0 [alarm_hello] 105"
  let ?sc = "scanned 6 ''Start_Alarm'' ''Group'' 2 7"
  let ?s1 = "fresh_state\<lparr>alarm_list := [alarm_hello], current_alarm := 105, calls := 1\<rparr>"
  let ?s' = "fresh_state
       \<lparr>alarm_list := [(parsed ?sc)\<lparr>time := 103\<rparr>, alarm_hello],
        current_alarm := 103, stdout := [Inserted_line 2 1 103 7 3 ''msg''], calls := 4\<rparr>"
  have v: "input_validator (keyword_action ?sc) (keyword_group ?sc) (user_arg ?sc) = Inr 3"
    by (simp add: scanned_def input_validator_def)
  have lk: "pthread_mutex_lock ?e fresh_state = Some (0, ?s1)"
    by (simp add: pthread_mutex_lock_def acquire_def woken_def env_finding_def fresh_state_def)
  have range: "- (2 ^ 63) \<le> (100::int) + 3" "(100::int) + 3 < 2 ^ 63" by simp_all
  have ac: "accepted_command ?e ?sc fresh_state = Some (Inr ?s')"
    by (simp add: fresh_state_def alarm_hello_def scanned_def env_finding_def
      accepted_command_def input_validator_def pthread_mutex_lock_def
      acquire_def woken_def time_NULL_def time_t_sum_in_range alarm_insert_def
      pthread_cond_signal_def status_call_def pthread_mutex_unlock_def)
  have now: "fst (time_NULL ?e ?s1) = 100"
    by (simp add: time_NULL_def env_finding_def)
  have sec: "seconds (parsed ?sc) = 3" by (simp add: scanned_def)
  from start_deadline_is_now_plus_seconds[OF v lk]
  obtain s' alarm where d: "accepted_command ?e ?sc fresh_state = Some (Inr s') \<or>
      (\<exists>stopped. accepted_command ?e ?sc fresh_state = Some (Inl (stopped, s')))"
    and m: "alarm \<in> set (alarm_list s')" "seconds alarm = seconds (parsed ?sc)"
    and r: "- (2 ^ 63) \<le> fst (time_NULL ?e ?s1) + seconds (parsed ?sc) \<and>
            fst (time_NULL ?e ?s1) + seconds (parsed ?sc) < 2 ^ 63 \<longrightarrow>
            time alarm = fst (time_NULL ?e ?s1) + seconds (parsed ?sc)"
    by blast
  from d ac have "s' = ?s'" by auto
  moreover from r now sec range have "time alarm = 100 + 3" by simp
  ultimately have "\<exists>alarm. alarm \<in> set [(parsed ?sc)\<lparr>time := 103\<rparr>, alarm_hello] \<and>
      time alarm = 100 + 3 \<and> seconds alarm = 3"
    using m sec by auto
  with v lk ac now sec range show ?thesis by simp
qed

text \<open>
  C9, as the specification has it: a line of which \<^verbatim>\<open>sscanf\<close> matched fewer items than
  its command needs is rejected with \<^verbatim>\<open>Bad command\<close>. It fails: of the line
  \<^verbatim>\<open>Start_Alarm(1): Group(7)\<close> four items are matched where six are needed, the check of
  \<^verbatim>\<open>main\<close> passes, and the process is stopped by \<^verbatim>\<open>err_abort (69, "command not found")\<close>;
  \<^verbatim>\<open>Bad command\<close> is not printed.
\<close>

theorem short_parse_is_not_a_bad_command:
  "\<not> bad_command (scanned 4 ''Start_Alarm'' ''Group'' 1 7) \<and>
   main_iteration (env_finding 0 [] 0)
     (line_read ''Start_Alarm(1): Group(7)'' (scanned 4 ''Start_Alarm'' ''Group'' 1 7))
     fresh_state =
   Some (Inl (Err_abort 69 ''command not found'', fresh_state\<lparr>stdout := [Prompt]\<rparr>)) \<and>
   stderr (fresh_state\<lparr>stdout := [Prompt]\<rparr>) = []"
  by (simp add: main_iteration_def line_read_def scanned_def bad_command_def c_eq_def
      accepted_command_def input_validator_def fresh_state_def)

text \<open>
  C9, amended: the check of \<^verbatim>\<open>main\<close> looks at the id and the group only. For every line,
  an id or a group below 1 in the alarm after \<^verbatim>\<open>sscanf\<close> gets the line rejected with
  \<^verbatim>\<open>Bad command\<close> on standard error, no alarm is inserted and the program reads on. A
  line with id and group at least 1 of which \<^verbatim>\<open>sscanf\<close> matched a number of items (0 or
  more) that \<^verbatim>\<open>input_validator\<close> does not take for its keyword is not rejected so: the
  process is stopped by \<^verbatim>\<open>err_abort (69, "command not found")\<close>, no alarm inserted. (What
  happens when \<^verbatim>\<open>sscanf\<close> returns \<^verbatim>\<open>EOF\<close> with id and group at least 1 is left open.)
\<close>

theorem parse_check_is_on_id_and_group:
  assumes "fgets_line inp = Some line" and "1 < length line" and "malloc_ok inp"
  shows "(id_alarm (parsed (sscanf_result inp)) < 1 \<or> id_group (parsed (sscanf_result inp)) < 1
          \<longrightarrow> main_iteration e inp s =
                Some (Inr (s\<lparr>stdout := stdout s @ [Prompt],
                             stderr := stderr s @ [''Bad command'']\<rparr>))) \<and>
         (1 \<le> id_alarm (parsed (sscanf_result inp)) \<and> 1 \<le> id_group (parsed (sscanf_result inp))
          \<and> 0 \<le> user_arg (sscanf_result inp)
          \<and> input_validator (keyword_action (sscanf_result inp))
               (keyword_group (sscanf_result inp)) (user_arg (sscanf_result inp)) = Inl stopped
          \<longrightarrow> main_iteration e inp s =
                Some (Inl (Err_abort 69 ''command not found'',
                           s\<lparr>stdout := stdout s @ [Prompt]\<rparr>)))"
proof (intro conjI impI)
  assume "id_alarm (parsed (sscanf_result inp)) < 1 \<or> id_group (parsed (sscanf_result inp)) < 1"
  then have "bad_command (sscanf_result inp)" by (simp add: bad_command_iff)
  from main_iteration_bad[OF assms this]
  show "main_iteration e inp s =
     Some (Inr (s\<lparr>stdout := stdout s @ [Prompt], stderr := stderr s @ [''Bad command'']\<rparr>))" .
next
  assume a: "1 \<le> id_alarm (parsed (sscanf_result inp)) \<and> 1 \<le> id_group (parsed (sscanf_result inp))
          \<and> 0 \<le> user_arg (sscanf_result inp)
          \<and> input_validator (keyword_action (sscanf_result inp))
               (keyword_group (sscanf_result inp)) (user_arg (sscanf_result inp)) = Inl stopped"
  then have nb: "\<not> bad_command (sscanf_result inp)" by (simp add: bad_command_iff)
  from a have v: "input_validator (keyword_action (sscanf_result inp))
               (keyword_group (sscanf_result inp)) (user_arg (sscanf_result inp)) = Inl stopped"
    by simp
  from main_iteration_not_found[OF assms nb v]
  show "main_iteration e inp s =
     Some (Inl (Err_abort 69 ''command not found'', s\<lparr>stdout := stdout s @ [Prompt]\<rparr>))" .
qed

theorem parse_check_is_on_id_and_group_witness:
  "fgets_line (line_read ''Start_Alarm(0): Group(7)'' (scanned 4 ''Start_Alarm'' ''Group'' 0 7))
     = Some (''Start_Alarm(0): Group(7)'' @ [CHR 0x0A]) \<and>
   1 < length (''Start_Alarm(0): Group(7)'' @ [CHR 0x0A]) \<and>
   malloc_ok (line_read ''Start_Alarm(0): Group(7)'' (scanned 4 ''Start_Alarm'' ''Group'' 0 7)) \<and>
   id_alarm (parsed (scanned 4 ''Start_Alarm'' ''Group'' 0 7)) < 1 \<and>
   main_iteration (env_finding 0 [] 0)
     (line_read ''Start_Alarm(0): Group(7)'' (scanned 4 ''Start_Alarm'' ''Group'' 0 7))
     fresh_state =
     Some (Inr (fresh_state\<lparr>stdout := [Prompt], stderr := [''Bad command'']\<rparr>)) \<and>
   fgets_line (line_read ''Start_Alarm(1): Group(7)'' (scanned 4 ''Start_Alarm'' ''Group'' 1 7))
     = Some (''Start_Alarm(1): Group(7)'' @ [CHR 0x0A]) \<and>
   malloc_ok (line_read ''Start_Alarm(1): Group(7)'' (scanned 4 ''Start_Alarm'' ''Group'' 1 7)) \<and>
   1 \<le> id_alarm (parsed (scanned 4 ''Start_Alarm'' ''Group'' 1 7)) \<and>
   1 \<le> id_group (parsed (scanned 4 ''Start_Alarm'' ''Group'' 1 7)) \<and>
   0 \<le> user_arg (scanned 4 ''Start_Alarm'' ''Group'' 1 7) \<and>
   input_validator ''Start_Alarm'' ''Group'' 4 = Inl (Err_abort 69 ''command not found'') \<and>
   main_iteration (env_finding 0 [] 0)
     (line_read ''Start_Alarm(1): Group(7)'' (scanned 4 ''Start_Alarm'' ''Group'' 1 7))
     fresh_state =
     Some (Inl (Err_abort 69 ''command not found'', fresh_state\<lparr>stdout := [Prompt]\<rparr>))"
proof -
  let ?bad = "line_read ''Start_Alarm(0): Group(7)'' (scanned 4 ''Start_Alarm'' ''Group'' 0 7)"
  let ?short = "line_read ''Start_Alarm(1): Group(7)'' (scanned 4 ''Start_Alarm'' ''Group'' 1 7)"
  have b: "fgets_line ?bad = Some (''Start_Alarm(0): Group(7)'' @ [CHR 0x0A])"
    "1 < length (''Start_Alarm(0): Group(7)'' @ [CHR 0x0A])" "malloc_ok ?bad"
    by (simp_all add: line_read_def)
  have s: "fgets_line ?short = Some (''Start_Alarm(1): Group(7)'' @ [CHR 0x0A])"
    "1 < length (''Start_Alarm(1): Group(7)'' @ [CHR 0x0A])" "malloc_ok ?short"
    by (simp_all add: line_read_def)
  have v: "input_validator ''Start_Alarm'' ''Group'' 4 = Inl (Err_abort 69 ''command not found'')"
    by (simp add: input_validator_def)
  have 1: "main_iteration (env_finding 0 [] 0) ?bad fresh_state =
     Some (Inr (fresh_state\<lparr>stdout := [Prompt], stderr := [''Bad command'']\<rparr>))"
    using parse_check_is_on_id_and_group[OF b, of "env_finding 0 [] 0" fresh_state]
    by (simp add: line_read_def scanned_def fresh_state_def)
  have 2: "main_iteration (env_finding 0 [] 0) ?short fresh_state =
     Some (Inl (Err_abort 69 ''command not found'', fresh_state\<lparr>stdout := [Prompt]\<rparr>))"
    using parse_check_is_on_id_and_group[OF s, of "env_finding 0 [] 0" fresh_state
        "Err_abort 69 ''command not found''"] v
    by (simp add: line_read_def scanned_def fresh_state_def)
  from b s v 1 2 show ?thesis by (simp add: scanned_def)
qed

text \<open>
  C10: whichever of the six commands \<^verbatim>\<open>input_validator\<close> recognises, \<^verbatim>\<open>main\<close> drops the
  flag and does what it does for \<^verbatim>\<open>Start_Alarm\<close>: once it has the mutex it inserts the
  alarm just allocated, with the fields it holds after \<^verbatim>\<open>sscanf\<close>, into the list, and
  takes nothing out: the list afterwards is the list found with that alarm put in at
  one place. So a \<^verbatim>\<open>Cancel_Alarm\<close>, \<^verbatim>\<open>Suspend_Alarm\<close>, \<^verbatim>\<open>Reactivate_Alarm\<close> or \<^verbatim>\<open>View_Alarms\<close>
  line that reaches \<^verbatim>\<open>input_validator\<close> ends in an insertion.
\<close>

theorem every_recognised_command_inserts:
  assumes "input_validator (keyword_action sc) (keyword_group sc) (user_arg sc) = Inr flag"
  shows "accepted_command e sc s =
           accepted_command e
             (sc\<lparr>user_arg := 6, keyword_action := ''Start_Alarm'', keyword_group := ''Group''\<rparr>) s
         \<and> (\<forall>s1. pthread_mutex_lock e s = Some (0, s1) \<longrightarrow>
               (\<exists>s' alarm xs ys.
                  (accepted_command e sc s = Some (Inr s') \<or>
                   (\<exists>stopped. accepted_command e sc s = Some (Inl (stopped, s')))) \<and>
                  alarm = (parsed sc)
                    \<lparr>time := time_t_sum (fst (time_NULL e s1)) (seconds (parsed sc))\<rparr> \<and>
                  alarm_list s1 = xs @ ys \<and>
                  alarm_list s' = xs @ alarm # ys \<and>
                  alarm \<in> set (alarm_list s') \<and>
                  length (alarm_list s') = Suc (length (alarm_list s1))))"
proof -
  have "input_validator ''Start_Alarm'' ''Group'' 6 = Inr 3"
    by (simp add: input_validator_def)
  with assms have same: "accepted_command e sc s =
           accepted_command e
             (sc\<lparr>user_arg := 6, keyword_action := ''Start_Alarm'', keyword_group := ''Group''\<rparr>) s"
    by (simp add: accepted_command_def cong: option.case_cong if_cong)
  have "\<exists>s' alarm xs ys.
                  (accepted_command e sc s = Some (Inr s') \<or>
                   (\<exists>stopped. accepted_command e sc s = Some (Inl (stopped, s')))) \<and>
                  alarm = (parsed sc)
                    \<lparr>time := time_t_sum (fst (time_NULL e s1)) (seconds (parsed sc))\<rparr> \<and>
                  alarm_list s1 = xs @ ys \<and>
                  alarm_list s' = xs @ alarm # ys \<and>
                  alarm \<in> set (alarm_list s') \<and>
                  length (alarm_list s') = Suc (length (alarm_list s1))"
    if lk: "pthread_mutex_lock e s = Some (0, s1)" for s1
  proof -
    let ?a = "(parsed sc)\<lparr>time := time_t_sum (fst (time_NULL e s1)) (seconds (parsed sc))\<rparr>"
    from accepted_command_inserts[OF assms lk]
    obtain s' where d: "accepted_command e sc s = Some (Inr s') \<or>
               (\<exists>stopped. accepted_command e sc s = Some (Inl (stopped, s')))"
      and l: "alarm_list s' = alarm_insert_loop ?a (alarm_list s1)"
      by blast
    from alarm_insert_loop_split[of "alarm_list s1" ?a]
    obtain xs ys where sp: "alarm_list s1 = xs @ ys"
      "alarm_insert_loop ?a (alarm_list s1) = xs @ ?a # ys"
      by blast
    from l sp have 1: "alarm_list s' = xs @ ?a # ys" by simp
    then have 2: "?a \<in> set (alarm_list s')" by simp
    from 1 sp(1) have 3: "length (alarm_list s') = Suc (length (alarm_list s1))" by simp
    from d sp(1) 1 2 3 show ?thesis by blast
  qed
  with same show ?thesis by blast
qed

theorem every_recognised_command_inserts_witness:
  "input_validator (keyword_action (scanned 2 ''Cancel_Alarm'' '''' 1 7))
     (keyword_group (scanned 2 ''Cancel_Alarm'' '''' 1 7))
     (user_arg (scanned 2 ''Cancel_Alarm'' '''' 1 7)) = Inr 1 \<and>
   accepted_command (env_finding 0 [alarm_hello] 105) (scanned 2 ''Cancel_Alarm'' '''' 1 7)
     fresh_state =
   accepted_command (env_finding 0 [alarm_hello] 105) (scanned 6 ''Start_Alarm'' ''Group'' 1 7)
     fresh_state \<and>
   pthread_mutex_lock (env_finding 0 [alarm_hello] 105) fresh_state =
     Some (0, fresh_state\<lparr>alarm_list := [alarm_hello], current_alarm := 105, calls := 1\<rparr>) \<and>
   accepted_command (env_finding 0 [alarm_hello] 105) (scanned 2 ''Cancel_Alarm'' '''' 1 7)
     fresh_state =
     Some (Inr (fresh_state
       \<lparr>alarm_list := [(parsed (scanned 2 ''Cancel_Alarm'' '''' 1 7))\<lparr>time := 103\<rparr>, alarm_hello],
        current_alarm := 103, stdout := [Inserted_line 1 1 103 7 3 ''msg''], calls := 4\<rparr>)) \<and>
   (parsed (scanned 2 ''Cancel_Alarm'' '''' 1 7))\<lparr>time := 103\<rparr>
     \<in> set [(parsed (scanned 2 ''Cancel_Alarm'' '''' 1 7))\<lparr>time := 103\<rparr>, alarm_hello] \<and>
   length [(parsed (scanned 2 ''Cancel_Alarm'' '''' 1 7))\<lparr>time := 103\<rparr>, alarm_hello] =
     Suc (length [alarm_hello])"
proof -
  let ?e = "env_finding 0 [alarm_hello] 105"
  let ?sc = "scanned 2 ''Cancel_Alarm'' '''' 1 7"
  let ?s1 = "fresh_state\<lparr>alarm_list := [alarm_hello], current_alarm := 105, calls := 1\<rparr>"
  let ?s' = "fresh_state
       \<lparr>alarm_list := [(parsed ?sc)\<lparr>time := 103\<rparr>, alarm_hello],
        current_alarm := 103, stdout := [Inserted_line 1 1 103 7 3 ''msg''], calls := 4\<rparr>"
  have v: "input_validator (keyword_action ?sc) (keyword_group ?sc) (user_arg ?sc) = Inr 1"
    by (simp add: scanned_def input_validator_def)
  have lk: "pthread_mutex_lock ?e fresh_state = Some (0, ?s1)"
    by (simp add: pthread_mutex_lock_def acquire_def woken_def env_finding_def fresh_state_def)
  have start: "?sc\<lparr>user_arg := 6, keyword_action := ''Start_Alarm'', keyword_group := ''Group''\<rparr>
      = scanned 6 ''Start_Alarm'' ''Group'' 1 7"
    by (simp add: scanned_def)
  note inserts = every_recognised_command_inserts[OF v, of ?e fresh_state]
  from inserts start
  have same: "accepted_command ?e ?sc fresh_state =
      accepted_command ?e (scanned 6 ''Start_Alarm'' ''Group'' 1 7) fresh_state"
    by simp
  have "accepted_command ?e (scanned 6 ''Start_Alarm'' ''Group'' 1 7) fresh_state =
     Some (Inr ?s')"
    by (simp add: fresh_state_def alarm_hello_def scanned_def env_finding_def
      accepted_command_def input_validator_def pthread_mutex_lock_def
      acquire_def woken_def time_NULL_def time_t_sum_in_range alarm_insert_def
      pthread_cond_signal_def status_call_def pthread_mutex_unlock_def)
  with same have ac: "accepted_command ?e ?sc fresh_state = Some (Inr ?s')" by simp
  have t: "time_t_sum (fst (time_NULL ?e ?s1)) (seconds (parsed ?sc)) = 103"
    by (simp add: time_NULL_def env_finding_def scanned_def time_t_sum_in_range)
  from inserts lk obtain s' alarm where
    d: "accepted_command ?e ?sc fresh_state = Some (Inr s') \<or>
      (\<exists>stopped. accepted_command ?e ?sc fresh_state = Some (Inl (stopped, s')))"
    and a: "alarm = (parsed ?sc)
              \<lparr>time := time_t_sum (fst (time_NULL ?e ?s1)) (seconds (parsed ?sc))\<rparr>"
    and m: "alarm \<in> set (alarm_list s')"
    and n: "length (alarm_list s') = Suc (length (alarm_list ?s1))"
    by blast
  from d ac have s': "s' = ?s'" by auto
  from a t have "alarm = (parsed ?sc)\<lparr>time := 103\<rparr>" by simp
  with m s' have 1: "(parsed ?sc)\<lparr>time := 103\<rparr>
     \<in> set [(parsed ?sc)\<lparr>time := 103\<rparr>, alarm_hello]"
    by simp
  from n s' have 2: "length [(parsed ?sc)\<lparr>time := 103\<rparr>, alarm_hello] =
     Suc (length [alarm_hello])"
    by simp
  from v same lk ac 1 2 show ?thesis by blast
qed

end
